theory Spec2Isabelle
  imports Main "HOL-Library.Sublist"
begin

section \<open>Strings as the engine uses them\<close>

text \<open>
  The engine (\<^verbatim>\<open>server/services/bot-manager.ts\<close>) works on JavaScript strings.
  They are modelled as \<^typ>\<open>string\<close> (lists of 8-bit characters); the texts the engine
  inspects are taken to be ASCII, so case conversion touches the letters A to Z only and
  white space is the ASCII white space (tab, line feed, vertical tab, form feed, carriage
  return, blank).
\<close>

abbreviation dq :: char where "dq \<equiv> CHR 0x22"
abbreviation sq :: char where "sq \<equiv> CHR 0x27"
abbreviation nl :: char where "nl \<equiv> CHR 0x0A"
abbreviation cr :: char where "cr \<equiv> CHR 0x0D"
abbreviation bs :: char where "bs \<equiv> CHR 0x5C"

definition toLowerChar :: "char \<Rightarrow> char" where
  "toLowerChar c =
     (case map_of (zip ''ABCDEFGHIJKLMNOPQRSTUVWXYZ'' ''abcdefghijklmnopqrstuvwxyz'') c of
        Some d \<Rightarrow> d
      | None \<Rightarrow> c)"

definition toLowerCase :: "string \<Rightarrow> string" where
  "toLowerCase s = map toLowerChar s"

definition isSpace :: "char \<Rightarrow> bool" where
  "isSpace c = (c \<in> set [CHR 0x09, nl, CHR 0x0B, CHR 0x0C, cr, CHR '' ''])"

text \<open>\<^verbatim>\<open>s.trim()\<close>\<close>

definition trim :: "string \<Rightarrow> string" where
  "trim s = rev (dropWhile isSpace (rev (dropWhile isSpace s)))"

text \<open>\<^verbatim>\<open>s.startsWith(p)\<close>, \<^verbatim>\<open>s.includes(p)\<close>, \<^verbatim>\<open>s.endsWith(p)\<close>\<close>

fun startsWith :: "string \<Rightarrow> string \<Rightarrow> bool" where
  "startsWith s [] = True"
| "startsWith [] (p # ps) = False"
| "startsWith (c # s) (p # ps) = (c = p \<and> startsWith s ps)"

fun str_includes :: "string \<Rightarrow> string \<Rightarrow> bool" where
  "str_includes [] p = startsWith [] p"
| "str_includes (c # s) p = (startsWith (c # s) p \<or> str_includes s p)"

definition endsWith :: "string \<Rightarrow> string \<Rightarrow> bool" where
  "endsWith s p = startsWith (rev s) (rev p)"

text \<open>\<^verbatim>\<open>s.split(d)\<close> for a one-character separator, and \<^verbatim>\<open>xs.join(d)\<close>\<close>

fun split_on :: "char \<Rightarrow> string \<Rightarrow> string list" where
  "split_on d [] = [[]]"
| "split_on d (c # s) =
     (if c = d then [] # split_on d s
      else (case split_on d s of [] \<Rightarrow> [[c]] | x # xs \<Rightarrow> (c # x) # xs))"

fun join :: "string \<Rightarrow> string list \<Rightarrow> string" where
  "join d [] = []"
| "join d [x] = x"
| "join d (x # y # ys) = x @ d @ join d (y # ys)"

text \<open>A number inside a template literal: its decimal digits.\<close>

definition digit :: "nat \<Rightarrow> char" where
  "digit d = ''0123456789'' ! d"

fun show_nat :: "nat \<Rightarrow> string" where
  "show_nat n = (if n < 10 then [digit n] else show_nat (n div 10) @ [digit (n mod 10)])"

declare show_nat.simps [simp del]

section \<open>Regular expressions\<close>

text \<open>
  The patterns of the engine are alternations of sequences of single characters,
  character classes and starred character classes. A pattern is its \<^verbatim>\<open>i\<close> flag and its
  alternatives in the order they are written; matching backtracks in that order and a
  star is greedy. The text of a pattern (\<^verbatim>\<open>pattern.source\<close>) is written out from the
  alternatives.
\<close>

datatype cls =
    Ch char           \<comment> \<open>that character\<close>
  | Space             \<comment> \<open>\<^verbatim>\<open>\s\<close>\<close>
  | AnyCh             \<comment> \<open>\<^verbatim>\<open>.\<close>: anything but a line terminator\<close>
  | Hex               \<comment> \<open>\<^verbatim>\<open>[0-9a-f]\<close>\<close>
  | Quote             \<comment> \<open>\<^verbatim>\<open>['"]\<close>\<close>

datatype item = One cls | Many cls

record regex =
  ignoreCase :: bool
  alternatives :: "item list list"

fun cls_ok :: "bool \<Rightarrow> cls \<Rightarrow> char \<Rightarrow> bool" where
  "cls_ok i (Ch k) c = (if i then toLowerChar c = toLowerChar k else c = k)"
| "cls_ok i Space c = isSpace c"
| "cls_ok i AnyCh c = (c \<noteq> nl \<and> c \<noteq> cr)"
| "cls_ok i Hex c = ((if i then toLowerChar c else c) \<in> set ''0123456789abcdef'')"
| "cls_ok i Quote c = (c = sq \<or> c = dq)"

text \<open>The length of the match of a sequence at the start of the text, if there is one.\<close>

fun match_items :: "bool \<Rightarrow> item list \<Rightarrow> string \<Rightarrow> nat option" where
  "match_items i [] s = Some 0"
| "match_items i (One k # is) [] = None"
| "match_items i (One k # is) (c # s) =
     (if cls_ok i k c then map_option Suc (match_items i is s) else None)"
| "match_items i (Many k # is) [] = match_items i is []"
| "match_items i (Many k # is) (c # s) =
     (if cls_ok i k c
      then (case match_items i (Many k # is) s of
              Some n \<Rightarrow> Some (Suc n)
            | None \<Rightarrow> match_items i is (c # s))
      else match_items i is (c # s))"

fun match_alts :: "bool \<Rightarrow> item list list \<Rightarrow> string \<Rightarrow> nat option" where
  "match_alts i [] s = None"
| "match_alts i (a # as) s =
     (case match_items i a s of Some n \<Rightarrow> Some n | None \<Rightarrow> match_alts i as s)"

definition match_at :: "regex \<Rightarrow> string \<Rightarrow> nat option" where
  "match_at r s = match_alts (ignoreCase r) (alternatives r) s"

text \<open>\<^verbatim>\<open>pattern.test(s)\<close> for a pattern without the \<^verbatim>\<open>g\<close> flag: a match at some position.\<close>

fun test :: "regex \<Rightarrow> string \<Rightarrow> bool" where
  "test r [] = (match_at r [] \<noteq> None)"
| "test r (c # s) = (match_at r (c # s) \<noteq> None \<or> test r s)"

definition lit :: "string \<Rightarrow> item list" where
  "lit w = map (\<lambda>c. One (Ch c)) w"

fun cls_source :: "cls \<Rightarrow> string" where
  "cls_source (Ch c) = (if c \<in> set ''().[]{}*+?^$|'' \<or> c = bs then [bs, c] else [c])"
| "cls_source Space = [bs, CHR ''s'']"
| "cls_source AnyCh = ''.''"
| "cls_source Hex = ''[0-9a-f]''"
| "cls_source Quote = [CHR ''['', sq, dq, CHR '']'']"

fun item_source :: "item \<Rightarrow> string" where
  "item_source (One k) = cls_source k"
| "item_source (Many k) = cls_source k @ ''*''"

definition source :: "regex \<Rightarrow> string" where
  "source r = join ''|'' (map (\<lambda>a. concat (map item_source a)) (alternatives r))"

text \<open>A pattern that is an alternation of plain words, flag \<^verbatim>\<open>i\<close>.\<close>

definition words_i :: "string list \<Rightarrow> regex" where
  "words_i ws = \<lparr>ignoreCase = True, alternatives = map lit ws\<rparr>"

section \<open>RADAR: the static analysis\<close>

record botfile =
  filename :: string
  content :: string

record analysis =
  isSuspicious :: bool
  reasons :: "string list"
  riskScore :: nat

definition mining_words :: "string list" where
  "mining_words =
     [''mining'', ''miner'', ''crypto'', ''bitcoin'', ''ethereum'', ''monero'', ''xmr'',
      ''btc'', ''eth'']"

definition hashing_words :: "string list" where
  "hashing_words = [''hashrate'', ''difficulty'', ''pool'', ''stratum'']"

definition gpu_words :: "string list" where
  "gpu_words = [''gpu'', ''cuda'', ''opencl'', ''amd'', ''nvidia'']"

definition attack_words :: "string list" where
  "attack_words = [''ddos'', ''flood'', ''spam'', ''attack'', ''exploit'']"

definition proxy_words :: "string list" where
  "proxy_words = [''proxy'', ''vpn'', ''tor'', ''onion'']"

definition botnet_words :: "string list" where
  "botnet_words = [''botnet'', ''zombie'', ''malware'']"

definition spaces :: item where
  "spaces = Many Space"

definition loop_pattern :: regex where
  "loop_pattern =
     \<lparr>ignoreCase = True,
      alternatives =
        [lit ''infinite'',
         lit ''while'' @ [spaces] @ lit ''('' @ [spaces] @ lit ''true'' @ [spaces] @ lit '')'',
         lit ''for'' @ [spaces] @ lit ''('' @ [spaces] @ lit '';'' @ [spaces] @ lit '';''
           @ [spaces] @ lit '')'']\<rparr>"

definition fork_pattern :: regex where
  "fork_pattern =
     \<lparr>ignoreCase = True,
      alternatives =
        [lit ''fork'',
         lit ''spawn'' @ [Many AnyCh] @ lit ''spawn'',
         lit ''exec'' @ [Many AnyCh] @ lit ''exec'']\<rparr>"

definition memory_pattern :: regex where
  "memory_pattern =
     \<lparr>ignoreCase = True,
      alternatives =
        [lit ''memory'' @ [Many AnyCh] @ lit ''allocation'',
         lit ''malloc'' @ [Many AnyCh] @ lit ''malloc'']\<rparr>"

definition suspiciousPatterns :: "regex list" where
  "suspiciousPatterns =
     [words_i mining_words, words_i hashing_words, words_i gpu_words,
      words_i attack_words, words_i proxy_words, words_i botnet_words,
      loop_pattern, fork_pattern, memory_pattern]"

text \<open>
  \<^verbatim>\<open>/eval\s*\(/i\<close>, \<^verbatim>\<open>/exec\s*\(/i\<close>, \<^verbatim>\<open>/\\x[0-9a-f]{2}/i\<close>, \<^verbatim>\<open>/\\u[0-9a-f]{4}/i\<close>
\<close>

definition obfuscationIndicators :: "regex list" where
  "obfuscationIndicators =
     [\<lparr>ignoreCase = True, alternatives = [lit ''eval'' @ [spaces] @ lit ''('']\<rparr>,
      \<lparr>ignoreCase = True, alternatives = [lit ''exec'' @ [spaces] @ lit ''('']\<rparr>,
      \<lparr>ignoreCase = True, alternatives = [lit [bs, CHR ''x''] @ [One Hex, One Hex]]\<rparr>,
      \<lparr>ignoreCase = True,
       alternatives = [lit [bs, CHR ''u''] @ [One Hex, One Hex, One Hex, One Hex]]\<rparr>]"

text \<open>The loop over \<^verbatim>\<open>suspiciousPatterns\<close> for one file: reasons and score so far.\<close>

fun scan_patterns ::
  "string \<Rightarrow> string \<Rightarrow> regex list \<Rightarrow> string list \<times> nat \<Rightarrow> string list \<times> nat" where
  "scan_patterns name c [] acc = acc"
| "scan_patterns name c (p # ps) (rs, score) =
     scan_patterns name c ps
       (if test p c
        then (rs @ [''Suspicious pattern detected in '' @ name @ '': ''
                      @ hd (split_on (CHR ''|'') (source p))],
              score + 10)
        else (rs, score))"

fun scan_indicators ::
  "string \<Rightarrow> string \<Rightarrow> regex list \<Rightarrow> string list \<times> nat \<Rightarrow> string list \<times> nat" where
  "scan_indicators name c [] acc = acc"
| "scan_indicators name c (p # ps) (rs, score) =
     scan_indicators name c ps
       (if test p c
        then (rs @ [''Potential code obfuscation in '' @ name], score + 15)
        else (rs, score))"

definition scan_size :: "string \<Rightarrow> string \<Rightarrow> string list \<times> nat \<Rightarrow> string list \<times> nat" where
  "scan_size name c acc =
     (let n = length (split_on nl c) in
      if n > 10000
      then (fst acc @ [''Large file detected: '' @ name @ '' ('' @ show_nat n @ '' lines)''],
            snd acc + 5)
      else acc)"

text \<open>The body of the loop over the files.\<close>

definition scan_file :: "botfile \<Rightarrow> string list \<times> nat \<Rightarrow> string list \<times> nat" where
  "scan_file f acc =
     (let c = toLowerCase (content f) in
      scan_indicators (filename f) c obfuscationIndicators
        (scan_size (filename f) c
           (scan_patterns (filename f) c suspiciousPatterns acc)))"

definition analyzeCode :: "botfile list \<Rightarrow> analysis" where
  "analyzeCode files =
     (let (rs, score) = foldl (\<lambda>acc f. scan_file f acc) ([], 0) files in
      \<lparr>isSuspicious = score > 20, reasons = rs, riskScore = score\<rparr>)"

section \<open>Global replacement\<close>

text \<open>
  \<^verbatim>\<open>s.replace(pattern, replacement)\<close> for a pattern with the \<^verbatim>\<open>g\<close> flag and a replacement
  string. The replacement string is not taken literally: \<^verbatim>\<open>$$\<close> stands for a dollar sign,
  \<^verbatim>\<open>$&\<close> for the matched text, \<^verbatim>\<open>$`\<close> for the text before the match and \<^verbatim>\<open>$'\<close> for the
  text after it (the patterns have no groups, so \<^verbatim>\<open>$1\<close> and the like stay as they are).
\<close>

fun expand :: "string \<Rightarrow> string \<Rightarrow> string \<Rightarrow> string \<Rightarrow> string" where
  "expand [] matched left right = []"
| "expand [c] matched left right = [c]"
| "expand (c # d # r) matched left right =
     (if c = CHR ''$'' \<and> d = CHR ''$'' then CHR ''$'' # expand r matched left right
      else if c = CHR ''$'' \<and> d = CHR ''&'' then matched @ expand r matched left right
      else if c = CHR ''$'' \<and> d = CHR 0x60 then left @ expand r matched left right
      else if c = CHR ''$'' \<and> d = sq then right @ expand r matched left right
      else c # expand (d # r) matched left right)"

text \<open>
  The scan goes from left to right over the text that is left; \<open>pre\<close> is the part of the
  original text already passed. After an empty match the scan moves on by one character.
\<close>

function replace_from :: "regex \<Rightarrow> string \<Rightarrow> string \<Rightarrow> string \<Rightarrow> string" where
  "replace_from r repl pre [] =
     (case match_at r [] of None \<Rightarrow> [] | Some n \<Rightarrow> expand repl [] pre [])"
| "replace_from r repl pre (c # s) =
     (case match_at r (c # s) of
        None \<Rightarrow> c # replace_from r repl (pre @ [c]) s
      | Some 0 \<Rightarrow> expand repl [] pre (c # s) @ c # replace_from r repl (pre @ [c]) s
      | Some (Suc n) \<Rightarrow>
          expand repl (c # take n s) pre (drop n s)
            @ replace_from r repl (pre @ c # take n s) (drop n s))"
  by pat_completeness auto
termination
  by (relation "measure (\<lambda>(r, repl, pre, s). length s)") auto

definition replace_all :: "regex \<Rightarrow> string \<Rightarrow> string \<Rightarrow> string" where
  "replace_all r repl s = replace_from r repl [] s"

section \<open>The engine's state\<close>

text \<open>
  The persisted bot record (the fields the engine reads and writes), the log records, the
  table of child processes held by \<^verbatim>\<open>BotManager.processes\<close>, the workspace directories
  on disk (one directory per bot identifier, a map from the names of the files that are
  its direct entries to their contents), the signals sent to children and the lines
  written by \<^verbatim>\<open>console.error\<close> and \<^verbatim>\<open>console.warn\<close>.
\<close>

record bot =
  token :: string
  language :: string
  mainFile :: "string option"
  status :: string
  processId :: "nat option"
  memoryUsage :: string
  cpuUsage :: string
  lastStarted :: "nat option"

record botlog =
  log_botId :: string
  log_type :: string
  log_message :: string

record child =
  pid :: "nat option"
  command :: string
  args :: "string list"
  cwd :: string
  env :: "(string \<times> string) list"

record engine =
  bots :: "string \<rightharpoonup> bot"
  botFiles :: "string \<Rightarrow> botfile list"
  botLogs :: "botlog list"
  processes :: "string \<rightharpoonup> child"
  workspace :: "string \<rightharpoonup> (string \<rightharpoonup> string)"
  signals :: "(string \<times> string) list"
  console :: "string list"

text \<open>
  What the engine cannot decide by itself: whether a directory or a file can be written,
  how a package tool ends, whether the dependencies can be read from a manifest text
  (the error of \<^verbatim>\<open>JSON.parse(text).dependencies\<close>, if any), the pid the operating system
  gives to a spawned child, the clock, the inherited environment, and whether a path
  exists that leads out of the part of the workspace directory held in the state.
\<close>

datatype cmd_outcome =
    Exited "nat option" string   \<comment> \<open>exit code (none when killed by a signal), stderr\<close>
  | TimedOut string              \<comment> \<open>killed at the timeout; its stderr\<close>
  | SpawnFailed string

record world =
  mkdir_error :: "string \<Rightarrow> string option"
  write_error :: "string \<Rightarrow> string \<Rightarrow> string option"
  rm_error :: "string \<Rightarrow> string option"
  run :: "string \<Rightarrow> string list \<Rightarrow> string \<Rightarrow> cmd_outcome"
  json_error :: "string \<Rightarrow> string option"
  spawn_pid :: "nat option"
  now :: nat
  process_env :: "(string \<times> string) list"
  beyond_exists :: "string \<Rightarrow> string \<Rightarrow> bool"

record result =
  success :: bool
  message :: string

text \<open>\<^verbatim>\<open>storage.updateBot(id, patch)\<close>: nothing happens when there is no such bot.\<close>

definition updateBot :: "string \<Rightarrow> (bot \<Rightarrow> bot) \<Rightarrow> engine \<Rightarrow> engine" where
  "updateBot botId patch s =
     (case bots s botId of
        None \<Rightarrow> s
      | Some b \<Rightarrow> s\<lparr>bots := (bots s)(botId \<mapsto> patch b)\<rparr>)"

definition logBotOutput :: "string \<Rightarrow> string \<Rightarrow> string \<Rightarrow> engine \<Rightarrow> engine" where
  "logBotOutput botId type msg s =
     s\<lparr>botLogs := botLogs s @ [\<lparr>log_botId = botId, log_type = type, log_message = trim msg\<rparr>]\<rparr>"

definition reset_fields :: "string \<Rightarrow> bot \<Rightarrow> bot" where
  "reset_fields st b =
     b\<lparr>status := st, processId := None, memoryUsage := ''0MB'', cpuUsage := ''0%''\<rparr>"

text \<open>The directory of the bot has a direct entry of that name.\<close>

definition file_exists :: "engine \<Rightarrow> string \<Rightarrow> string \<Rightarrow> bool" where
  "file_exists s botId name =
     (case workspace s botId of None \<Rightarrow> False | Some d \<Rightarrow> d name \<noteq> None)"

definition write_file :: "string \<Rightarrow> string \<Rightarrow> string \<Rightarrow> engine \<Rightarrow> engine" where
  "write_file botId name text s =
     (case workspace s botId of
        None \<Rightarrow> s
      | Some d \<Rightarrow> s\<lparr>workspace := (workspace s)(botId \<mapsto> d(name \<mapsto> text))\<rparr>)"

text \<open>
  \<^verbatim>\<open>path.join(botDir, name)\<close> for a name that comes with a file or a bot record (POSIX
  paths). The name is cut at the slashes; empty segments and \<^verbatim>\<open>.\<close> are dropped and \<^verbatim>\<open>..\<close>
  takes back the segment before it. What is left is the directory itself, a direct entry
  of it, or a place that the state does not hold: below a subdirectory, above the
  directory, or an entry named with a slash at its end (only a directory answers to
  that).
\<close>

datatype place = Here | Entry string | Beyond

fun climb :: "string list \<Rightarrow> string list \<Rightarrow> string list option" where
  "climb stack [] = Some stack"
| "climb stack (x # xs) =
     (if x = [] \<or> x = ''.'' then climb stack xs
      else if x = ''..'' then (case stack of [] \<Rightarrow> None | y # ys \<Rightarrow> climb ys xs)
      else climb (x # stack) xs)"

definition locate :: "string \<Rightarrow> place" where
  "locate name =
     (case climb [] (split_on CHR ''/'' name) of
        None \<Rightarrow> Beyond
      | Some [] \<Rightarrow> Here
      | Some [n] \<Rightarrow> if endsWith name ''/'' then Beyond else Entry n
      | Some (n # m # ms) \<Rightarrow> Beyond)"

text \<open>
  \<^verbatim>\<open>fs.access(path.join(botDir, name))\<close> succeeds. For a place that the state does not
  hold the world answers.
\<close>

definition path_exists :: "world \<Rightarrow> engine \<Rightarrow> string \<Rightarrow> string \<Rightarrow> bool" where
  "path_exists w s botId name =
     (case locate name of
        Here \<Rightarrow> workspace s botId \<noteq> None
      | Entry n \<Rightarrow> file_exists s botId n
      | Beyond \<Rightarrow> beyond_exists w botId name)"

text \<open>
  \<^verbatim>\<open>fs.writeFile(path.join(botDir, name), text)\<close> when it succeeds: a direct entry of the
  directory is created or overwritten; a file written to any other place is not part of
  the state.
\<close>

definition write_path :: "string \<Rightarrow> string \<Rightarrow> string \<Rightarrow> engine \<Rightarrow> engine" where
  "write_path botId name text s =
     (case locate name of Entry n \<Rightarrow> write_file botId n text s | other \<Rightarrow> s)"

section \<open>The workspace\<close>

definition placeholder_pattern :: regex where
  "placeholder_pattern =
     \<lparr>ignoreCase = False,
      alternatives =
        [lit ''YOUR_BOT_TOKEN'',
         lit ([dq] @ ''YOUR_BOT_TOKEN'' @ [dq]),
         lit ([sq] @ ''YOUR_BOT_TOKEN'' @ [sq])]\<rparr>"

definition process_env_pattern :: regex where
  "process_env_pattern =
     \<lparr>ignoreCase = False,
      alternatives =
        [lit ''process.env.DISCORD_TOKEN'', lit ''process.env.BOT_TOKEN'',
         lit ''process.env.TOKEN'']\<rparr>"

definition os_environ_pattern :: regex where
  "os_environ_pattern =
     \<lparr>ignoreCase = False,
      alternatives =
        [lit ''os.environ.get('' @ [One Quote] @ lit ''DISCORD_TOKEN'' @ [One Quote] @ lit '')'',
         lit ''os.environ['' @ [One Quote] @ lit ''DISCORD_TOKEN'' @ [One Quote] @ lit '']'']\<rparr>"

definition os_getenv_pattern :: regex where
  "os_getenv_pattern =
     \<lparr>ignoreCase = False,
      alternatives =
        [lit ''os.getenv('' @ [One Quote] @ lit ''DISCORD_TOKEN'' @ [One Quote] @ lit '')'']\<rparr>"

text \<open>The double-quoted literal of the credential, as the template literal builds it.\<close>

definition quoted :: "string \<Rightarrow> string" where
  "quoted botToken = [dq] @ botToken @ [dq]"

definition substitute :: "string \<Rightarrow> string \<Rightarrow> string" where
  "substitute botToken text =
     replace_all os_getenv_pattern (quoted botToken)
       (replace_all os_environ_pattern (quoted botToken)
          (replace_all process_env_pattern (quoted botToken)
             (replace_all placeholder_pattern (quoted botToken) text)))"

text \<open>
  An operation that can throw returns the error message (left) or its value (right),
  with the state reached.
\<close>

fun write_files ::
  "world \<Rightarrow> string \<Rightarrow> botfile list \<Rightarrow> string \<Rightarrow> engine \<Rightarrow> (string + unit) \<times> engine" where
  "write_files w botId [] botToken s = (Inr (), s)"
| "write_files w botId (f # fs) botToken s =
     (case write_error w botId (filename f) of
        Some e \<Rightarrow> (Inl e, s)
      | None \<Rightarrow>
          write_files w botId fs botToken
            (write_path botId (filename f) (substitute botToken (content f)) s))"

definition mkdir :: "string \<Rightarrow> engine \<Rightarrow> engine" where
  "mkdir botId s =
     (case workspace s botId of
        None \<Rightarrow> s\<lparr>workspace := (workspace s)(botId \<mapsto> Map.empty)\<rparr>
      | Some d \<Rightarrow> s)"

definition createBotWorkspace ::
  "world \<Rightarrow> string \<Rightarrow> botfile list \<Rightarrow> string \<Rightarrow> engine \<Rightarrow> (string + string) \<times> engine" where
  "createBotWorkspace w botId files botToken s =
     (case mkdir_error w botId of
        Some e \<Rightarrow> (Inl e, s)
      | None \<Rightarrow>
          (case write_files w botId files botToken (mkdir botId s) of
             (Inl e, s') \<Rightarrow> (Inl e, s')
           | (Inr u, s') \<Rightarrow> (Inr botId, s')))"

section \<open>Dependency inference\<close>

text \<open>\<^verbatim>\<open>imports.add(pin)\<close> on a set that keeps the order of insertion.\<close>

definition add_pin :: "string \<Rightarrow> string list \<Rightarrow> string list" where
  "add_pin pin pins = (if pin \<in> set pins then pins else pins @ [pin])"

text \<open>\<^verbatim>\<open>if (found) imports.add(pin)\<close>\<close>

definition add_if :: "bool \<Rightarrow> string \<Rightarrow> string list \<Rightarrow> string list" where
  "add_if found pin pins = (if found then add_pin pin pins else pins)"

text \<open>One line of a Python file, trimmed and lower-cased, against the markers in turn.\<close>

definition python_line_pins :: "string \<Rightarrow> string list \<Rightarrow> string list" where
  "python_line_pins line pins0 =
     (let cleanLine = toLowerCase (trim line);
          has = str_includes cleanLine;
          p1 = add_if (has ''discord.py'' \<or> has ''import discord'' \<or> has ''from discord'')
                 ''discord.py>=2.3.0'' pins0;
          p2 = add_if (has ''aiohttp'' \<or> has ''import aiohttp'') ''aiohttp>=3.8.0'' p1;
          p3 = add_if (has ''requests'' \<or> has ''import requests'') ''requests>=2.28.0'' p2;
          p4 = add_if (has ''asyncio'' \<or> has ''import asyncio'') ''asyncio'' p3;
          p5 = add_if (has ''json'' \<or> has ''import json'') ''json5>=0.9.0'' p4;
          p6 = add_if (has ''sqlite3'' \<or> has ''import sqlite3'') ''sqlite3'' p5;
          p7 = add_if (has ''mysql'' \<or> has ''pymysql'') ''PyMySQL>=1.0.0'' p6;
          p8 = add_if (has ''postgres'' \<or> has ''psycopg'') ''psycopg2-binary>=2.9.0'' p7;
          p9 = add_if (has ''dotenv'' \<or> has ''python-dotenv'') ''python-dotenv>=0.19.0'' p8
      in p9)"

definition python_file_pins :: "botfile \<Rightarrow> string list \<Rightarrow> string list" where
  "python_file_pins f pins0 =
     foldl (\<lambda>pins line. python_line_pins line pins) pins0 (split_on nl (content f))"

definition python_imports :: "botfile list \<Rightarrow> string list" where
  "python_imports files =
     (let pythonFiles = filter (\<lambda>f. endsWith (filename f) ''.py'') files;
          imports = foldl (\<lambda>pins f. python_file_pins f pins) [] pythonFiles
      in if imports = [] \<and> pythonFiles \<noteq> [] then [''discord.py>=2.3.0''] else imports)"

text \<open>\<^verbatim>\<open>dependencies[name] = version\<close> on an object that keeps the order of its keys.\<close>

definition set_dep ::
  "string \<Rightarrow> string \<Rightarrow> (string \<times> string) list \<Rightarrow> (string \<times> string) list" where
  "set_dep name version deps =
     (if name \<in> fst ` set deps
      then map (\<lambda>(k, v). if k = name then (k, version) else (k, v)) deps
      else deps @ [(name, version)])"

text \<open>\<^verbatim>\<open>if (found) dependencies[name] = version\<close>\<close>

definition dep_if ::
  "bool \<Rightarrow> string \<Rightarrow> string \<Rightarrow> (string \<times> string) list \<Rightarrow> (string \<times> string) list" where
  "dep_if found name version deps = (if found then set_dep name version deps else deps)"

definition node_file_deps :: "botfile \<Rightarrow> (string \<times> string) list \<Rightarrow> (string \<times> string) list" where
  "node_file_deps f d0 =
     (let c = toLowerCase (content f);
          has = str_includes c;
          d1 = dep_if (has ''discord.js'' \<or> has (''require('' @ [sq] @ ''discord'')
                         \<or> has ''import'' \<and> has ''discord'')
                 ''discord.js'' ''^14.14.1'' d0;
          d2 = dep_if (has ''@discordjs/builders'' \<or> has ''slashcommandbuilder'')
                 ''@discordjs/builders'' ''^1.7.0'' d1;
          d3 = dep_if (has ''@discordjs/rest'' \<or> has ''rest'') ''@discordjs/rest'' ''^2.2.0'' d2;
          d4 = dep_if (has ''@discordjs/voice'') ''@discordjs/voice'' ''^0.16.1'' d3;
          d5 = dep_if (has ''dotenv'' \<or> has ''process.env'') ''dotenv'' ''^16.3.1'' d4;
          d6 = dep_if (has ''axios'' \<or> has ''http request'') ''axios'' ''^1.6.0'' d5;
          d7 = dep_if (has ''fs-extra'') ''fs-extra'' ''^11.2.0'' d6;
          d8 = dep_if (has ''moment'' \<or> has ''date'') ''moment'' ''^2.29.4'' d7;
          d9 = dep_if (has ''lodash'' \<or> has ''_'') ''lodash'' ''^4.17.21'' d8;
          d10 = dep_if (has ''sqlite3'') ''sqlite3'' ''^5.1.6'' d9;
          d11 = dep_if (has ''mysql'') ''mysql2'' ''^3.6.5'' d10;
          d12 = dep_if (has ''mongoose'' \<or> has ''mongodb'') ''mongoose'' ''^8.0.3'' d11
      in d12)"

definition node_dependencies :: "botfile list \<Rightarrow> (string \<times> string) list" where
  "node_dependencies files =
     (let jsFiles = filter (\<lambda>f. endsWith (filename f) ''.js'' \<or> endsWith (filename f) ''.ts'') files;
          dependencies = foldl (\<lambda>deps f. node_file_deps f deps) [] jsFiles
      in if dependencies = [] \<and> jsFiles \<noteq> [] then [(''discord.js'', ''^14.14.1'')]
         else dependencies)"

text \<open>
  \<^verbatim>\<open>JSON.stringify(packageJson, null, 2)\<close> for the manifest object; it is only called with
  at least one dependency, and no name or version needs escaping.
\<close>

definition json_string :: "string \<Rightarrow> string" where
  "json_string x = [dq] @ x @ [dq]"

definition package_json :: "(string \<times> string) list \<Rightarrow> string" where
  "package_json deps =
     ''{'' @ [nl]
     @ ''  '' @ json_string ''name'' @ '': '' @ json_string ''discord-bot'' @ '','' @ [nl]
     @ ''  '' @ json_string ''version'' @ '': '' @ json_string ''1.0.0'' @ '','' @ [nl]
     @ ''  '' @ json_string ''main'' @ '': '' @ json_string ''index.js'' @ '','' @ [nl]
     @ ''  '' @ json_string ''dependencies'' @ '': {'' @ [nl]
     @ join ('','' @ [nl])
         (map (\<lambda>(k, v). ''    '' @ json_string k @ '': '' @ json_string v) deps) @ [nl]
     @ ''  }'' @ [nl]
     @ ''}''"

text \<open>Writing the manifest inside the \<^verbatim>\<open>try\<close> block: a failure is only warned about.\<close>

definition write_manifest :: "world \<Rightarrow> string \<Rightarrow> string \<Rightarrow> string \<Rightarrow> engine \<Rightarrow> engine" where
  "write_manifest w botId name text s =
     (case write_error w botId name of
        Some e \<Rightarrow> s\<lparr>console := console s @ [''Failed to auto-create dependencies file: '' @ e]\<rparr>
      | None \<Rightarrow> write_file botId name text s)"

definition autoCreateDependencies ::
  "world \<Rightarrow> string \<Rightarrow> string \<Rightarrow> botfile list \<Rightarrow> engine \<Rightarrow> engine" where
  "autoCreateDependencies w botId lang files s =
     (if lang = ''python'' then
        (if \<not> file_exists s botId ''requirements.txt'' then
           (let imports = python_imports files in
            if imports \<noteq> []
            then write_manifest w botId ''requirements.txt'' (join [nl] imports) s
            else s)
         else s)
      else if lang = ''nodejs'' then
        (if \<not> file_exists s botId ''package.json'' then
           (let dependencies = node_dependencies files in
            if dependencies \<noteq> []
            then write_manifest w botId ''package.json'' (package_json dependencies) s
            else s)
         else s)
      else s)"

section \<open>The installer\<close>

definition show_code :: "nat option \<Rightarrow> string" where
  "show_code code = (case code of None \<Rightarrow> ''null'' | Some n \<Rightarrow> show_nat n)"

text \<open>
  \<^verbatim>\<open>runCommand\<close>: resolves on exit code 0, rejects otherwise. When the command exits
  with another code or without one, its exit observer writes to the console
  (\<^verbatim>\<open>console.error\<close>) before it rejects. When the timer fires first, the command is
  killed and \<^verbatim>\<open>runCommand\<close> rejects at once; the exit of the killed command, which has
  no code, is observed afterwards and the observer writes the same lines then. The value
  is the outcome, the lines written before it, and the lines written after it.
\<close>

definition failed_command :: "string \<Rightarrow> string list \<Rightarrow> nat option \<Rightarrow> string" where
  "failed_command cmd as code =
     ''Command '' @ [sq] @ cmd @ '' '' @ join '' '' as @ [sq]
       @ '' failed with exit code '' @ show_code code"

definition exit_lines :: "string \<Rightarrow> string list \<Rightarrow> nat option \<Rightarrow> string \<Rightarrow> string list" where
  "exit_lines cmd as code err =
     [''['' @ cmd @ ''] '' @ failed_command cmd as code]
     @ (if trim err \<noteq> [] then [''['' @ cmd @ ''] stderr: '' @ trim err] else [])"

definition runCommand ::
  "world \<Rightarrow> string \<Rightarrow> string list \<Rightarrow> string \<Rightarrow> nat
     \<Rightarrow> (string + unit) \<times> string list \<times> string list" where
  "runCommand w cmd as dir timeout =
     (case run w cmd as dir of
        TimedOut err \<Rightarrow>
          (Inl (''Command timeout after '' @ show_nat timeout @ ''ms: '' @ cmd @ '' ''
                  @ join '' '' as),
           [], exit_lines cmd as None err)
      | SpawnFailed e \<Rightarrow> (Inl (''Failed to spawn '' @ cmd @ '': '' @ e), [], [])
      | Exited code err \<Rightarrow>
          (if code = Some 0 then (Inr (), [], [])
           else
             (Inl (failed_command cmd as code @ ''. ''
                     @ (if trim err \<noteq> [] then ''Error: '' @ trim err else [])),
              exit_lines cmd as code err, [])))"

text \<open>
  The \<^verbatim>\<open>try\<close> block of \<^verbatim>\<open>installDependencies\<close>: what it throws or returns, the lines
  that the commands have written to the console by then, and the lines that come
  after. The exit of a command killed at the timeout is taken to be observed before
  the command tried next ends.
\<close>

definition read_file :: "engine \<Rightarrow> string \<Rightarrow> string \<Rightarrow> string option" where
  "read_file s botId name =
     (case workspace s botId of None \<Rightarrow> None | Some d \<Rightarrow> d name)"

definition install_attempt ::
  "world \<Rightarrow> string \<Rightarrow> string \<Rightarrow> engine \<Rightarrow> (string + unit) \<times> string list \<times> string list" where
  "install_attempt w botId lang s =
     (if lang = ''python'' then
        (case read_file s botId ''requirements.txt'' of
           None \<Rightarrow> (Inr (), [], [])
         | Some requirementsContent \<Rightarrow>
             (case runCommand w ''python3''
                     [''-m'', ''pip'', ''install'', ''--user'', ''-r'', ''requirements.txt'']
                     botId 180000 of
                (Inr u, l1, t1) \<Rightarrow> (Inr (), l1, t1)
              | (Inl e, l1, t1) \<Rightarrow>
                  (case runCommand w ''python3''
                          [''-m'', ''pip'', ''install'', ''-r'', ''requirements.txt'']
                          botId 180000 of
                     (Inr u, l2, t2) \<Rightarrow> (Inr (), l1 @ t1 @ l2, t2)
                   | (Inl e2, l2, t2) \<Rightarrow>
                       (case runCommand w ''pip3''
                               [''install'', ''--user'', ''-r'', ''requirements.txt'']
                               botId 180000 of
                          (r3, l3, t3) \<Rightarrow> (r3, l1 @ t1 @ l2 @ t2 @ l3, t3)))))
      else if lang = ''nodejs'' then
        (case read_file s botId ''package.json'' of
           None \<Rightarrow> (Inr (), [], [])
         | Some packageContent \<Rightarrow>
             (case json_error w packageContent of
                Some e \<Rightarrow> (Inl e, [], [])
              | None \<Rightarrow>
                  runCommand w ''npm''
                    [''install'', ''--production'', ''--no-audit'', ''--no-fund''] botId 240000))
      else (Inr (), [], []))"

text \<open>
  The failure is written to the console and goes no further. The lines that come after
  it are those of a last command that was killed at the timeout.
\<close>

definition installDependencies :: "world \<Rightarrow> string \<Rightarrow> string \<Rightarrow> engine \<Rightarrow> engine" where
  "installDependencies w botId lang s =
     (case install_attempt w botId lang s of
        (Inr u, ls, later) \<Rightarrow> s\<lparr>console := console s @ ls @ later\<rparr>
      | (Inl e, ls, later) \<Rightarrow>
          s\<lparr>console := console s @ ls @ [''Failed to install dependencies: '' @ e] @ later\<rparr>)"

section \<open>Starting a bot\<close>

definition validateBot :: "bot \<Rightarrow> string + unit" where
  "validateBot b =
     (if token b = [] then Inl ''Bot token is missing''
      else if language b = [] then Inl ''Bot language is not specified''
      else Inr ())"

text \<open>
  The main file: the stored one unless it is empty, else the first file of the runtime
  with a common name, else the first file of the runtime; when the choice is not in the
  workspace, the first file of the runtime.
\<close>

definition choose_main ::
  "string option \<Rightarrow> string list \<Rightarrow> botfile list \<Rightarrow> string option" where
  "choose_main stored commonMainFiles runtimeFiles =
     (if stored \<noteq> None \<and> stored \<noteq> Some [] then stored
      else (case find (\<lambda>f. toLowerCase (filename f) \<in> set commonMainFiles) runtimeFiles of
              Some f \<Rightarrow> Some (filename f)
            | None \<Rightarrow> (case runtimeFiles of [] \<Rightarrow> None | f # fs \<Rightarrow> Some (filename f))))"

definition resolve_main ::
  "world \<Rightarrow> engine \<Rightarrow> string \<Rightarrow> string option \<Rightarrow> string list \<Rightarrow> botfile list \<Rightarrow> string \<Rightarrow>
   string + string" where
  "resolve_main w s botId stored commonMainFiles runtimeFiles kind =
     (case choose_main stored commonMainFiles runtimeFiles of
        None \<Rightarrow> Inl (''No '' @ kind @ '' files found to execute'')
      | Some m \<Rightarrow>
          (if m = [] then Inl (''No '' @ kind @ '' files found to execute'')
           else if path_exists w s botId m then Inr m
           else (case runtimeFiles of
                   [] \<Rightarrow> Inl (''No '' @ kind @ '' files found in workspace'')
                 | f # fs \<Rightarrow> Inr (filename f))))"

definition python_main_files :: "string list" where
  "python_main_files = [''main.py'', ''bot.py'', ''app.py'', ''run.py'', ''__main__.py'', ''start.py'']"

definition node_main_files :: "string list" where
  "node_main_files = [''index.js'', ''main.js'', ''app.js'', ''bot.js'', ''start.js'', ''server.js'']"

text \<open>
  The environment of the child, \<^verbatim>\<open>{...process.env, DISCORD_TOKEN: ..., ...}\<close>: a variable
  that is inherited keeps its place and takes the new value, a new one comes last.
\<close>

definition set_var ::
  "string \<Rightarrow> string \<Rightarrow> (string \<times> string) list \<Rightarrow> (string \<times> string) list" where
  "set_var name val vars =
     (if name \<in> fst ` set vars
      then map (\<lambda>(k, v). if k = name then (k, val) else (k, v)) vars
      else vars @ [(name, val)])"

definition child_env :: "world \<Rightarrow> string \<Rightarrow> string \<Rightarrow> (string \<times> string) list" where
  "child_env w botId botToken =
     set_var ''PYTHONUNBUFFERED'' ''1''
       (set_var ''NODE_ENV''
          (case map_of (process_env w) ''NODE_ENV'' of
             None \<Rightarrow> ''production''
           | Some v \<Rightarrow> if v = [] then ''production'' else v)
          (set_var ''BOT_ID'' botId
             (set_var ''DISCORD_TOKEN'' botToken (process_env w))))"

text \<open>The command line of the child, or the error thrown while looking for the main file.\<close>

definition launch ::
  "world \<Rightarrow> engine \<Rightarrow> string \<Rightarrow> bot \<Rightarrow> botfile list \<Rightarrow> string + child" where
  "launch w s botId b files =
     (if language b = ''python'' then
        (case resolve_main w s botId (mainFile b) python_main_files
                (filter (\<lambda>f. endsWith (filename f) ''.py'') files) ''Python'' of
           Inl e \<Rightarrow> Inl e
         | Inr m \<Rightarrow>
             Inr \<lparr>pid = spawn_pid w, command = ''python3'', args = [''-u'', m], cwd = botId,
                  env = child_env w botId (token b)\<rparr>)
      else if language b = ''nodejs'' then
        (case resolve_main w s botId (mainFile b) node_main_files
                (filter (\<lambda>f. endsWith (filename f) ''.js'' \<or> endsWith (filename f) ''.ts'') files)
                ''JavaScript'' of
           Inl e \<Rightarrow> Inl e
         | Inr m \<Rightarrow>
             Inr \<lparr>pid = spawn_pid w, command = ''node'', args = [m], cwd = botId,
                  env = child_env w botId (token b)\<rparr>)
      else Inl (''Unsupported language: '' @ language b))"

text \<open>
  The \<^verbatim>\<open>try\<close> block of \<^verbatim>\<open>startBot\<close>: the error thrown (left) or the result returned
  (right), with the state reached.
\<close>

definition start_attempt :: "world \<Rightarrow> string \<Rightarrow> bot \<Rightarrow> engine \<Rightarrow> (string + result) \<times> engine" where
  "start_attempt w botId b s =
     (case validateBot b of
        Inl e \<Rightarrow> (Inl e, s)
      | Inr u \<Rightarrow>
          (let files = botFiles s botId;
               radarAnalysis = analyzeCode files
           in if isSuspicious radarAnalysis then
                (Inr \<lparr>success = False,
                      message = ''Bot blocked by RADAR system. Suspicious activity detected: ''
                                  @ hd (reasons radarAnalysis)\<rparr>,
                 logBotOutput botId ''error''
                   (''RADAR: Suspicious code detected. Risk score: ''
                      @ show_nat (riskScore radarAnalysis) @ ''. Reasons: ''
                      @ join '', '' (reasons radarAnalysis))
                   (updateBot botId (\<lambda>b. b\<lparr>status := ''error''\<rparr>) s))
              else
                (case createBotWorkspace w botId files (token b) s of
                   (Inl e, s1) \<Rightarrow> (Inl e, s1)
                 | (Inr botDir, s1) \<Rightarrow>
                     (let s2 = autoCreateDependencies w botDir (language b) files s1;
                          s3 = installDependencies w botDir (language b) s2
                      in case launch w s3 botId b files of
                           Inl e \<Rightarrow> (Inl e, s3)
                         | Inr childProcess \<Rightarrow>
                             (Inr \<lparr>success = True, message = ''Bot started successfully''\<rparr>,
                              updateBot botId
                                (\<lambda>b. b\<lparr>status := ''running'',
                                       processId :=
                                         Some (case pid childProcess of None \<Rightarrow> 0 | Some n \<Rightarrow> n),
                                       lastStarted := Some (now w)\<rparr>)
                                (s3\<lparr>processes := (processes s3)(botId \<mapsto> childProcess)\<rparr>))))))"

text \<open>
  \<^verbatim>\<open>startBot\<close>: throws (left) when there is no such bot; otherwise returns a result.
  The resource sampler it starts at the end is a timer and is not part of this model.
\<close>

definition startBot :: "world \<Rightarrow> string \<Rightarrow> engine \<Rightarrow> (string + result) \<times> engine" where
  "startBot w botId s =
     (case bots s botId of
        None \<Rightarrow> (Inl ''Bot not found'', s)
      | Some b \<Rightarrow>
          (if processes s botId \<noteq> None
           then (Inr \<lparr>success = False, message = ''Bot is already running''\<rparr>, s)
           else
             (case start_attempt w botId b (updateBot botId (\<lambda>b. b\<lparr>status := ''starting''\<rparr>) s) of
                (Inr r, s') \<Rightarrow> (Inr r, s')
              | (Inl e, s') \<Rightarrow>
                  (Inr \<lparr>success = False, message = ''Failed to start bot: '' @ e\<rparr>,
                   logBotOutput botId ''error'' (''Failed to start bot: '' @ e)
                     (updateBot botId (\<lambda>b. b\<lparr>status := ''error''\<rparr>) s')))))"

section \<open>The observers of a child\<close>





text \<open>
  \<^verbatim>\<open>childProcess.on('exit', ...)\<close>, as the states it goes through: the handle is removed,
  then the record is updated, then the exit is logged. The code is absent when the child
  was killed by a signal.
\<close>

definition exit_status :: "nat option \<Rightarrow> string" where
  "exit_status code = (if code = Some 0 then ''stopped'' else ''error'')"

definition on_exit_steps :: "string \<Rightarrow> nat option \<Rightarrow> engine \<Rightarrow> engine list" where
  "on_exit_steps botId code s =
     (let s1 = s\<lparr>processes := (processes s)(botId := None)\<rparr>;
          s2 = updateBot botId (reset_fields (exit_status code)) s1;
          s3 = logBotOutput botId (if code = Some 0 then ''info'' else ''error'')
                 (''Process exited with code '' @ show_code code) s2
      in [s1, s2, s3])"

definition on_exit :: "string \<Rightarrow> nat option \<Rightarrow> engine \<Rightarrow> engine" where
  "on_exit botId code s = last (on_exit_steps botId code s)"

text \<open>\<^verbatim>\<open>childProcess.on('error', ...)\<close>\<close>

definition on_error :: "string \<Rightarrow> string \<Rightarrow> engine \<Rightarrow> engine" where
  "on_error botId msg s =
     logBotOutput botId ''error'' (''Process error: '' @ msg)
       (updateBot botId (reset_fields ''error'')
          (s\<lparr>processes := (processes s)(botId := None)\<rparr>))"

section \<open>Stopping a bot\<close>

text \<open>
  What the child does within the five seconds after the graceful signal: it exits (with a
  code, or none when the signal killed it), or it is still there when the timer fires.
\<close>

datatype response = ExitsInTime "nat option" | StillRunning

definition send_signal :: "string \<Rightarrow> string \<Rightarrow> engine \<Rightarrow> engine" where
  "send_signal botId sig s = s\<lparr>signals := signals s @ [(botId, sig)]\<rparr>"

text \<open>The best-effort removal of the workspace directory.\<close>

definition remove_workspace :: "world \<Rightarrow> string \<Rightarrow> engine \<Rightarrow> engine" where
  "remove_workspace w botId s =
     (case rm_error w botId of
        Some e \<Rightarrow> s\<lparr>console := console s @ [''Failed to clean up bot workspace: '' @ e]\<rparr>
      | None \<Rightarrow> s\<lparr>workspace := (workspace s)(botId := None)\<rparr>)"

text \<open>
  \<^verbatim>\<open>stopBot\<close>. When the child exits in time, its exit observer (registered by
  \<^verbatim>\<open>startBot\<close>, so called first) runs before \<^verbatim>\<open>stopBot\<close> goes on. When the timer fires,
  the child is killed and \<^verbatim>\<open>stopBot\<close> goes on at once; the exit of the killed child is
  observed after that.
\<close>

definition stopBot :: "world \<Rightarrow> string \<Rightarrow> response \<Rightarrow> engine \<Rightarrow> result \<times> engine" where
  "stopBot w botId resp s =
     (case processes s botId of
        None \<Rightarrow>
          (\<lparr>success = True, message = ''Bot was not running''\<rparr>,
           updateBot botId (reset_fields ''stopped'') s)
      | Some p \<Rightarrow>
          (let s1 = send_signal botId ''SIGTERM'' s;
               s2 = (case resp of
                       ExitsInTime code \<Rightarrow> on_exit botId code s1
                     | StillRunning \<Rightarrow> send_signal botId ''SIGKILL'' s1);
               s3 = s2\<lparr>processes := (processes s2)(botId := None)\<rparr>;
               s4 = updateBot botId (reset_fields ''stopped'') s3
           in (\<lparr>success = True, message = ''Bot stopped successfully''\<rparr>,
               remove_workspace w botId s4)))"

text \<open>
  A whole stop as the store sees it: \<^verbatim>\<open>stopBot\<close>, and after it the exit observer of a
  child that had to be killed.
\<close>

definition stop_and_settle :: "world \<Rightarrow> string \<Rightarrow> response \<Rightarrow> engine \<Rightarrow> result \<times> engine" where
  "stop_and_settle w botId resp s =
     (case stopBot w botId resp s of
        (r, s') \<Rightarrow>
          (case (processes s botId, resp) of
             (Some p, StillRunning) \<Rightarrow> (r, on_exit botId None s')
           | other \<Rightarrow> (r, s')))"

section \<open>Notions used in the proofs\<close>

text \<open>The literal words an alternative starts with.\<close>

fun lit_prefix :: "item list \<Rightarrow> string" where
  "lit_prefix (One (Ch c) # is) = c # lit_prefix is"
| "lit_prefix is = []"

text \<open>
  The six keyword lists of \<^verbatim>\<open>suspiciousPatterns\<close>, and the words with which the
  alternatives of the other patterns and of the obfuscation indicators start.
\<close>

definition word_lists :: "string list list" where
  "word_lists = [mining_words, hashing_words, gpu_words, attack_words, proxy_words, botnet_words]"

definition structural_words :: "string list" where
  "structural_words =
     [''infinite'', ''while'', ''for'', ''fork'', ''spawn'', ''exec'', ''memory'', ''malloc'',
      ''eval'', [bs, CHR ''x''], [bs, CHR ''u'']]"

text \<open>What one file adds to the risk score.\<close>

definition file_score :: "botfile \<Rightarrow> nat" where
  "file_score f =
     (let c = toLowerCase (content f) in
      10 * length (filter (\<lambda>p. test p c) suspiciousPatterns)
      + (if length (split_on nl c) > 10000 then 5 else 0)
      + 15 * length (filter (\<lambda>p. test p c) obfuscationIndicators))"

text \<open>A bot, its store and a world in which nothing fails, for the examples.\<close>

definition demo_world :: world where
  "demo_world =
     \<lparr>mkdir_error = (\<lambda>d. None), write_error = (\<lambda>d f. None), rm_error = (\<lambda>d. None),
      run = (\<lambda>c a d. Exited (Some 0) []), json_error = (\<lambda>t. None), spawn_pid = Some 4242,
      now = 1000, process_env = [(''PATH'', ''/usr/bin'')], beyond_exists = (\<lambda>d p. False)\<rparr>"

definition demo_bot :: bot where
  "demo_bot =
     \<lparr>token = ''SECRET'', language = ''python'', mainFile = None, status = ''stopped'',
      processId = None, memoryUsage = ''0MB'', cpuUsage = ''0%'', lastStarted = None\<rparr>"

definition demo_engine :: "botfile list \<Rightarrow> engine" where
  "demo_engine files =
     \<lparr>bots = [''b1'' \<mapsto> demo_bot], botFiles = (\<lambda>i. if i = ''b1'' then files else []),
      botLogs = [], processes = Map.empty, workspace = Map.empty, signals = [], console = []\<rparr>"

text \<open>The bot has a file that its runtime can run.\<close>

definition has_runtime_file :: "string \<Rightarrow> botfile list \<Rightarrow> bool" where
  "has_runtime_file lang files =
     (lang = ''python'' \<and> list_ex (\<lambda>f. endsWith (filename f) ''.py'') files
      \<or> lang = ''nodejs'' \<and> list_ex (\<lambda>f. endsWith (filename f) ''.js'' \<or> endsWith (filename f) ''.ts'') files)"

text \<open>A Python file that does nothing.\<close>

definition pass_files :: "botfile list" where
  "pass_files = [\<lparr>filename = ''bot.py'', content = ''pass''\<rparr>]"

text \<open>The store after the bot of the examples has been started.\<close>

definition running_engine :: engine where
  "running_engine =
     \<lparr>bots = [''b1'' \<mapsto> demo_bot\<lparr>status := ''running'', processId := Some 4242,
                                  lastStarted := Some 1000\<rparr>],
      botFiles = (\<lambda>i. if i = ''b1'' then pass_files else []),
      botLogs = [],
      processes = [''b1'' \<mapsto> \<lparr>pid = Some 4242, command = ''python3'', args = [''-u'', ''bot.py''],
                               cwd = ''b1'', env = child_env demo_world ''b1'' ''SECRET''\<rparr>],
      workspace = [''b1'' \<mapsto> [''bot.py'' \<mapsto> ''pass'', ''requirements.txt'' \<mapsto> ''discord.py>=2.3.0'']],
      signals = [], console = []\<rparr>"

text \<open>Two states that differ at most in what was written to the console.\<close>

definition same_store :: "engine \<Rightarrow> engine \<Rightarrow> bool" where
  "same_store s t \<longleftrightarrow>
     bots s = bots t \<and> botFiles s = botFiles t \<and> botLogs s = botLogs t
     \<and> processes s = processes t \<and> workspace s = workspace t \<and> signals s = signals t"


text \<open>
  The table of section 4.2 of the specification: the marker substrings of a line and the
  pin that each of them stands for.
\<close>

definition marker_table :: "(string list \<times> string) list" where
  "marker_table =
     [([''discord.py'', ''import discord'', ''from discord''], ''discord.py>=2.3.0''),
      ([''aiohttp''], ''aiohttp>=3.8.0''),
      ([''requests''], ''requests>=2.28.0''),
      ([''dotenv'', ''python-dotenv''], ''python-dotenv>=0.19.0''),
      ([''pymysql'', ''mysql''], ''PyMySQL>=1.0.0''),
      ([''psycopg'', ''postgres''], ''psycopg2-binary>=2.9.0'')]"

text \<open>Every text that the code looks for in a line of a Python file.\<close>

definition python_markers :: "string list" where
  "python_markers =
     [''discord.py'', ''import discord'', ''from discord'', ''aiohttp'', ''import aiohttp'',
      ''requests'', ''import requests'', ''asyncio'', ''import asyncio'', ''json'',
      ''import json'', ''sqlite3'', ''import sqlite3'', ''mysql'', ''pymysql'', ''postgres'',
      ''psycopg'', ''dotenv'', ''python-dotenv'']"

text \<open>
  The texts that the code looks for in a JavaScript or TypeScript file (\<open>import\<close> counts
  only together with \<open>discord\<close>).
\<close>

definition node_markers :: "string list" where
  "node_markers =
     [''discord.js'', ''require('' @ [sq] @ ''discord'', ''discord'', ''@discordjs/builders'',
      ''slashcommandbuilder'', ''@discordjs/rest'', ''rest'', ''@discordjs/voice'', ''dotenv'',
      ''process.env'', ''axios'', ''http request'', ''fs-extra'', ''moment'', ''date'',
      ''lodash'', ''_'', ''sqlite3'', ''mysql'', ''mongoose'', ''mongodb'']"

text \<open>The file of the example of the specification: a login with the quoted placeholder.\<close>

definition login_file :: botfile where
  "login_file = \<lparr>filename = ''bot.py'',
                  content = ''client.run('' @ [dq] @ ''YOUR_BOT_TOKEN'' @ [dq] @ '')''\<rparr>"

section \<open>Properties: strings and patterns\<close>

lemma toLowerChar_fix: "c \<notin> set ''ABCDEFGHIJKLMNOPQRSTUVWXYZ'' \<Longrightarrow> toLowerChar c = c"
  by (simp add: toLowerChar_def)

lemma toLowerChar_idem [simp]: "toLowerChar (toLowerChar c) = toLowerChar c"
  by (auto simp: toLowerChar_def split: if_splits)

lemma toLowerCase_idem [simp]: "toLowerCase (toLowerCase s) = toLowerCase s"
  by (simp add: toLowerCase_def)

lemma toLowerCase_simps [simp]:
  "toLowerCase [] = []"
  "toLowerCase (c # s) = toLowerChar c # toLowerCase s"
  by (simp_all add: toLowerCase_def)

lemma toLowerCase_append [simp]: "toLowerCase (a @ b) = toLowerCase a @ toLowerCase b"
  by (simp add: toLowerCase_def)

lemma startsWith_prefix: "startsWith s p \<longleftrightarrow> prefix p s"
  by (induction s p rule: startsWith.induct) auto

lemma str_includes_sublist: "str_includes s p \<longleftrightarrow> sublist p s"
proof (induction s)
  case Nil
  then show ?case by (cases p) auto
next
  case (Cons c s)
  then show ?case by (auto simp: startsWith_prefix sublist_Cons_right)
qed

lemma match_items_prefix_i:
  "match_items True a s = Some n \<Longrightarrow> startsWith (toLowerCase s) (toLowerCase (lit_prefix a))"
proof (induction a arbitrary: s n rule: lit_prefix.induct)
  case (1 c "is")
  then show ?case by (cases s) (auto split: if_splits)
qed simp_all

lemma match_items_prefix_s:
  "match_items False a s = Some n \<Longrightarrow> startsWith s (lit_prefix a)"
proof (induction a arbitrary: s n rule: lit_prefix.induct)
  case (1 c "is")
  then show ?case by (cases s) (auto split: if_splits)
qed simp_all

lemma lit_prefix_lit [simp]: "lit_prefix (lit w) = w"
  by (induction w) (simp_all add: lit_def)

lemma match_items_lit_i:
  "(match_items True (lit w) s = None) = (\<not> startsWith (toLowerCase s) (toLowerCase w))"
proof (induction w arbitrary: s)
  case Nil
  then show ?case by (simp add: lit_def)
next
  case (Cons c w)
  then show ?case by (cases s) (auto simp: lit_def)
qed

lemma match_alts_words:
  "(match_alts True (map lit ws) s = None) =
     (\<not> list_ex (\<lambda>k. startsWith (toLowerCase s) (toLowerCase k)) ws)"
proof (induction ws)
  case Nil
  show ?case by simp
next
  case (Cons w ws)
  show ?case
  proof (cases "match_items True (lit w) s")
    case None
    then show ?thesis using Cons match_items_lit_i[of w s] by simp
  next
    case (Some n)
    then show ?thesis using match_items_lit_i[of w s] by simp
  qed
qed

lemma str_includes_Nil [simp]: "str_includes [] p = (p = [])"
  by (cases p) auto

lemma test_words:
  "test (words_i ws) s \<longleftrightarrow> list_ex (\<lambda>k. str_includes (toLowerCase s) (toLowerCase k)) ws"
proof (induction s)
  case Nil
  show ?case
    by (simp add: match_at_def words_i_def match_alts_words list_ex_iff del: not_None_eq)
next
  case (Cons c s)
  then show ?case
    by (simp add: match_at_def words_i_def match_alts_words list_ex_iff del: not_None_eq) blast
qed

lemma match_alts_prefix_i:
  "match_alts True as s = Some n \<Longrightarrow>
     list_ex (\<lambda>a. startsWith (toLowerCase s) (toLowerCase (lit_prefix a))) as"
proof (induction as)
  case Nil
  then show ?case by simp
next
  case (Cons a as)
  then show ?case
    by (cases "match_items True a s") (auto dest: match_items_prefix_i)
qed

lemma test_needs_prefix:
  "ignoreCase r \<Longrightarrow> test r s \<Longrightarrow>
     list_ex (\<lambda>a. str_includes (toLowerCase s) (toLowerCase (lit_prefix a))) (alternatives r)"
proof (induction s)
  case Nil
  then obtain n where "match_alts True (alternatives r) [] = Some n"
    by (auto simp: match_at_def)
  from match_alts_prefix_i[OF this] show ?case
    by (auto simp: list_ex_iff)
next
  case (Cons c s)
  show ?case
  proof (cases "match_at r (c # s)")
    case None
    with Cons show ?thesis by (auto simp: list_ex_iff)
  next
    case (Some n)
    with Cons.prems have "match_alts True (alternatives r) (c # s) = Some n"
      by (simp add: match_at_def)
    from match_alts_prefix_i[OF this] show ?thesis
      by (auto simp: list_ex_iff)
  qed
qed

lemma toLowerCase_fix: "list_all (\<lambda>c. c \<notin> set ''ABCDEFGHIJKLMNOPQRSTUVWXYZ'') s \<Longrightarrow> toLowerCase s = s"
  by (induction s) (simp_all add: toLowerChar_fix del: set_simps)

lemma lower_word_lists:
  "map toLowerCase mining_words = mining_words"
  "map toLowerCase hashing_words = hashing_words"
  "map toLowerCase gpu_words = gpu_words"
  "map toLowerCase attack_words = attack_words"
  "map toLowerCase proxy_words = proxy_words"
  "map toLowerCase botnet_words = botnet_words"
  by (simp_all add: mining_words_def hashing_words_def gpu_words_def attack_words_def
        proxy_words_def botnet_words_def toLowerChar_fix)

lemma test_words_lower:
  "map toLowerCase ws = ws \<Longrightarrow>
     test (words_i ws) (toLowerCase c) = list_ex (str_includes (toLowerCase c)) ws"
proof -
  assume a: "map toLowerCase ws = ws"
  have "list_ex (\<lambda>k. str_includes (toLowerCase c) (toLowerCase k)) ws
        = list_ex (str_includes (toLowerCase c)) (map toLowerCase ws)"
    by (simp add: list_ex_iff)
  with a show ?thesis by (simp add: test_words)
qed

lemma lit_prefix_append_lit: "lit_prefix (lit w @ rest) = w @ lit_prefix rest"
  by (induction w) (simp_all add: lit_def)

lemma structural_quiet:
  assumes "\<not> list_ex (str_includes (toLowerCase c)) structural_words"
  shows "filter (\<lambda>p. test p (toLowerCase c)) [loop_pattern, fork_pattern, memory_pattern] = []"
    and "filter (\<lambda>p. test p (toLowerCase c)) obfuscationIndicators = []"
proof -
  have lo: "\<not> test loop_pattern (toLowerCase c)"
    using assms test_needs_prefix[of loop_pattern "toLowerCase c"]
    by (auto simp: loop_pattern_def spaces_def structural_words_def lit_prefix_append_lit toLowerChar_fix)
  have fo: "\<not> test fork_pattern (toLowerCase c)"
    using assms test_needs_prefix[of fork_pattern "toLowerCase c"]
    by (auto simp: fork_pattern_def structural_words_def lit_prefix_append_lit toLowerChar_fix)
  have me: "\<not> test memory_pattern (toLowerCase c)"
    using assms test_needs_prefix[of memory_pattern "toLowerCase c"]
    by (auto simp: memory_pattern_def structural_words_def lit_prefix_append_lit toLowerChar_fix)
  from lo fo me show "filter (\<lambda>p. test p (toLowerCase c)) [loop_pattern, fork_pattern, memory_pattern] = []"
    by simp
  have "\<forall>p\<in>set obfuscationIndicators. \<not> test p (toLowerCase c)"
  proof
    fix p assume p: "p \<in> set obfuscationIndicators"
    then have ic: "ignoreCase p" by (auto simp: obfuscationIndicators_def)
    show "\<not> test p (toLowerCase c)"
      using assms test_needs_prefix[OF ic, of "toLowerCase c"] p
      by (auto simp: obfuscationIndicators_def spaces_def structural_words_def lit_prefix_append_lit toLowerChar_fix)
  qed
  then show "filter (\<lambda>p. test p (toLowerCase c)) obfuscationIndicators = []"
    by (simp add: filter_empty_conv)
qed

section \<open>Properties: the risk score\<close>

lemma scan_patterns_score:
  "snd (scan_patterns n c ps acc) = snd acc + 10 * length (filter (\<lambda>p. test p c) ps)"
  by (induction ps arbitrary: acc) (auto simp: split_def)

lemma scan_indicators_score:
  "snd (scan_indicators n c ps acc) = snd acc + 15 * length (filter (\<lambda>p. test p c) ps)"
  by (induction ps arbitrary: acc) (auto simp: split_def)

lemma scan_size_score:
  "snd (scan_size n c acc) = snd acc + (if length (split_on nl c) > 10000 then 5 else 0)"
  by (simp add: scan_size_def Let_def)

lemma scan_file_score: "snd (scan_file f acc) = snd acc + file_score f"
  by (simp add: scan_file_def file_score_def Let_def scan_patterns_score scan_indicators_score scan_size_score)

lemma foldl_scan_score:
  "snd (foldl (\<lambda>acc f. scan_file f acc) acc fs) = snd acc + sum_list (map file_score fs)"
  by (induction fs arbitrary: acc) (auto simp: scan_file_score)

lemma riskScore_sum: "riskScore (analyzeCode fs) = sum_list (map file_score fs)"
  using foldl_scan_score[of "([], 0)" fs]
  by (simp add: analyzeCode_def split_def Let_def)

lemma isSuspicious_iff: "isSuspicious (analyzeCode fs) \<longleftrightarrow> riskScore (analyzeCode fs) > 20"
  by (simp add: analyzeCode_def split_def Let_def)

lemma length_split_on: "length (split_on d s) \<le> Suc (length s)"
  by (induction s) (auto split: list.splits)

lemma file_score_words_only:
  assumes q: "\<not> list_ex (str_includes (toLowerCase c)) structural_words" and l: "length c < 10000"
  shows "file_score \<lparr>filename = n, content = c\<rparr>
         = 10 * length (filter (list_ex (str_includes (toLowerCase c))) word_lists)"
proof -
  have sz: "\<not> length (split_on nl (toLowerCase c)) > 10000"
    using length_split_on[of nl "toLowerCase c"] l by (simp add: toLowerCase_def)
  have sp: "suspiciousPatterns = map words_i word_lists @ [loop_pattern, fork_pattern, memory_pattern]"
    by (simp add: suspiciousPatterns_def word_lists_def)
  have w: "filter ((\<lambda>p. test p (toLowerCase c)) \<circ> words_i) word_lists
           = filter (list_ex (str_includes (toLowerCase c))) word_lists"
    by (simp add: word_lists_def test_words_lower lower_word_lists)
  show ?thesis
    using sz structural_quiet[OF q] w
    by (simp add: file_score_def Let_def sp filter_map del: filter.simps)
qed

lemma score_mining_bitcoin: "file_score \<lparr>filename = n, content = ''mining bitcoin''\<rparr> = 10"
  by (subst file_score_words_only)
     (simp_all add: structural_words_def word_lists_def mining_words_def hashing_words_def gpu_words_def
        attack_words_def proxy_words_def botnet_words_def toLowerChar_fix)

lemma score_hello_world: "file_score \<lparr>filename = n, content = ''hello world''\<rparr> = 0"
  by (subst file_score_words_only)
     (simp_all add: structural_words_def word_lists_def mining_words_def hashing_words_def gpu_words_def
        attack_words_def proxy_words_def botnet_words_def toLowerChar_fix)

lemma score_benign_words: "file_score \<lparr>filename = n, content = ''method difficulty history''\<rparr> = 30"
  by (subst file_score_words_only)
     (simp_all add: structural_words_def word_lists_def mining_words_def hashing_words_def gpu_words_def
        attack_words_def proxy_words_def botnet_words_def toLowerChar_fix)

section \<open>Properties: what the operations leave unchanged\<close>

lemma updateBot_frame [simp]:
  "processes (updateBot botId f s) = processes s"
  "workspace (updateBot botId f s) = workspace s"
  "botLogs (updateBot botId f s) = botLogs s"
  "botFiles (updateBot botId f s) = botFiles s"
  "signals (updateBot botId f s) = signals s"
  "console (updateBot botId f s) = console s"
  by (simp_all add: updateBot_def split: option.splits)

lemma updateBot_bots: "bots s botId = Some b \<Longrightarrow> bots (updateBot botId f s) = (bots s)(botId \<mapsto> f b)"
  by (simp add: updateBot_def)

lemma logBotOutput_frame [simp]:
  "processes (logBotOutput botId t m s) = processes s"
  "workspace (logBotOutput botId t m s) = workspace s"
  "bots (logBotOutput botId t m s) = bots s"
  "botFiles (logBotOutput botId t m s) = botFiles s"
  "signals (logBotOutput botId t m s) = signals s"
  "console (logBotOutput botId t m s) = console s"
  by (simp_all add: logBotOutput_def)

lemma write_file_frame [simp]:
  "bots (write_file i n t s) = bots s"
  "processes (write_file i n t s) = processes s"
  "botLogs (write_file i n t s) = botLogs s"
  "botFiles (write_file i n t s) = botFiles s"
  "signals (write_file i n t s) = signals s"
  "console (write_file i n t s) = console s"
  by (simp_all add: write_file_def split: option.splits)

lemma write_path_frame [simp]:
  "bots (write_path i n t s) = bots s"
  "processes (write_path i n t s) = processes s"
  "botLogs (write_path i n t s) = botLogs s"
  "botFiles (write_path i n t s) = botFiles s"
  "signals (write_path i n t s) = signals s"
  "console (write_path i n t s) = console s"
  by (simp_all add: write_path_def split: place.splits)

lemma mkdir_frame [simp]:
  "bots (mkdir i s) = bots s"
  "processes (mkdir i s) = processes s"
  "botLogs (mkdir i s) = botLogs s"
  "botFiles (mkdir i s) = botFiles s"
  "signals (mkdir i s) = signals s"
  "console (mkdir i s) = console s"
  by (simp_all add: mkdir_def split: option.splits)

lemma write_files_frame:
  "write_files w i fs t s = (r, s') \<Longrightarrow>
     bots s' = bots s \<and> processes s' = processes s \<and> botLogs s' = botLogs s
     \<and> botFiles s' = botFiles s \<and> signals s' = signals s \<and> console s' = console s"
  by (induction fs arbitrary: s) (auto split: option.splits)

lemma createBotWorkspace_frame:
  "createBotWorkspace w i fs t s = (r, s') \<Longrightarrow>
     bots s' = bots s \<and> processes s' = processes s \<and> botLogs s' = botLogs s
     \<and> botFiles s' = botFiles s \<and> signals s' = signals s \<and> console s' = console s"
  by (auto simp: createBotWorkspace_def split: option.splits prod.splits sum.splits
           dest!: write_files_frame)

lemma autoCreateDependencies_frame [simp]:
  "bots (autoCreateDependencies w i l fs s) = bots s"
  "processes (autoCreateDependencies w i l fs s) = processes s"
  "botLogs (autoCreateDependencies w i l fs s) = botLogs s"
  "botFiles (autoCreateDependencies w i l fs s) = botFiles s"
  "signals (autoCreateDependencies w i l fs s) = signals s"
  by (simp_all add: autoCreateDependencies_def write_manifest_def Let_def split: option.splits)

lemma installDependencies_frame [simp]:
  "bots (installDependencies w i l s) = bots s"
  "processes (installDependencies w i l s) = processes s"
  "botLogs (installDependencies w i l s) = botLogs s"
  "botFiles (installDependencies w i l s) = botFiles s"
  "signals (installDependencies w i l s) = signals s"
  "workspace (installDependencies w i l s) = workspace s"
  by (simp_all add: installDependencies_def split: sum.splits prod.splits)

lemma launch_pid: "launch w s i b fs = Inr c \<Longrightarrow> pid c = spawn_pid w"
  by (auto simp: launch_def split: if_splits sum.splits)

lemma start_attempt_success:
  assumes "start_attempt w botId b s = (Inr r, s')" and "success r" and "bots s botId = Some b0"
  shows "\<exists>c. processes s' botId = Some c \<and>
           bots s' = (bots s)(botId \<mapsto> b0\<lparr>status := ''running'',
              processId := Some (case spawn_pid w of None \<Rightarrow> 0 | Some n \<Rightarrow> n),
              lastStarted := Some (now w)\<rparr>)"
  using assms
  by (auto simp: start_attempt_def Let_def updateBot_def split: sum.splits if_splits prod.splits option.splits
        dest!: createBotWorkspace_frame launch_pid)

lemma startBot_unfold:
  assumes "bots s botId = Some b" and "processes s botId = None"
  shows "startBot w botId s =
     (case start_attempt w botId b (updateBot botId (\<lambda>b. b\<lparr>status := ''starting''\<rparr>) s) of
        (Inr r, s') \<Rightarrow> (Inr r, s')
      | (Inl e, s') \<Rightarrow>
          (Inr \<lparr>success = False, message = ''Failed to start bot: '' @ e\<rparr>,
           logBotOutput botId ''error'' (''Failed to start bot: '' @ e)
             (updateBot botId (\<lambda>b. b\<lparr>status := ''error''\<rparr>) s')))"
  using assms by (simp add: startBot_def)

section \<open>The exit observer\<close>

text \<open>
  Claim C5. On every exit of the child of a bot that is in the store, the exit observer
  first removes the process handle (the bot record is still untouched in that state),
  then persists status \<open>stopped\<close> for exit code 0 and \<open>error\<close> for every other code
  (also for no code at all), with the pid cleared and the memory and CPU texts reset to
  \<open>0MB\<close> and \<open>0%\<close>, and last writes the log line; the handle stays removed.
\<close>

theorem exit_observer_resets:
  assumes "bots s botId = Some b"
  shows "on_exit_steps botId code s =
           [s\<lparr>processes := (processes s)(botId := None)\<rparr>,
            s\<lparr>processes := (processes s)(botId := None),
               bots := (bots s)(botId \<mapsto>
                  b\<lparr>status := (if code = Some 0 then ''stopped'' else ''error''),
                    processId := None, memoryUsage := ''0MB'', cpuUsage := ''0%''\<rparr>)\<rparr>,
            on_exit botId code s]
         \<and> processes (on_exit botId code s) botId = None
         \<and> bots (on_exit botId code s) =
             (bots s)(botId \<mapsto>
                b\<lparr>status := (if code = Some 0 then ''stopped'' else ''error''),
                  processId := None, memoryUsage := ''0MB'', cpuUsage := ''0%''\<rparr>)"
  using assms
  by (simp add: on_exit_steps_def on_exit_def Let_def updateBot_def reset_fields_def
        exit_status_def logBotOutput_def)

theorem exit_observer_resets_witness:
  "bots (demo_engine []) ''b1'' = Some demo_bot
   \<and> map (\<lambda>s. (processes s ''b1'', map_option status (bots s ''b1'')))
         (on_exit_steps ''b1'' (Some 1)
            ((demo_engine [])\<lparr>processes := [''b1'' \<mapsto> \<lparr>pid = Some 7, command = ''python3'',
               args = [''-u'', ''bot.py''], cwd = ''b1'', env = []\<rparr>]\<rparr>))
       = [(None, Some ''stopped''), (None, Some ''error''), (None, Some ''error'')]
   \<and> map_option status (bots (on_exit ''b1'' (Some 0) (demo_engine [])) ''b1'') = Some ''stopped''
   \<and> map_option processId (bots (on_exit ''b1'' (Some 0) (demo_engine [])) ''b1'') = Some None"
proof -
  let ?s = "(demo_engine [])\<lparr>processes := [''b1'' \<mapsto> \<lparr>pid = Some 7, command = ''python3'',
               args = [''-u'', ''bot.py''], cwd = ''b1'', env = []\<rparr>]\<rparr>"
  have b: "bots (demo_engine []) ''b1'' = Some demo_bot"
    by (simp add: demo_engine_def)
  have b': "bots ?s ''b1'' = Some demo_bot"
    by (simp add: demo_engine_def)
  show ?thesis
    using exit_observer_resets[OF b', of "Some 1"] exit_observer_resets[OF b, of "Some 0"] b
    by (simp add: demo_bot_def demo_engine_def)
qed

section \<open>Properties: starting a bot\<close>

lemma write_files_ok:
  "fst (write_files w i fs t s) = Inr () \<longleftrightarrow> (\<forall>f\<in>set fs. write_error w i (filename f) = None)"
  by (induction fs arbitrary: s) (auto split: option.splits)

lemma write_files_result:
  "fst (write_files w i fs t s) = Inr () \<or> (\<exists>e. fst (write_files w i fs t s) = Inl e)"
  by (cases "fst (write_files w i fs t s)") auto

lemma createBotWorkspace_ok:
  "fst (createBotWorkspace w i fs t s) = Inr i \<longleftrightarrow>
     mkdir_error w i = None \<and> (\<forall>f\<in>set fs. write_error w i (filename f) = None)"
  using write_files_ok[of w i fs t "mkdir i s"]
  by (auto simp: createBotWorkspace_def split: option.splits prod.splits sum.splits)

lemma createBotWorkspace_value:
  "createBotWorkspace w i fs t s = (Inr d, s') \<Longrightarrow> d = i"
  by (auto simp: createBotWorkspace_def split: option.splits prod.splits sum.splits)

lemma endsWith_nonempty: "endsWith n (c # p) \<Longrightarrow> n \<noteq> []"
  by (auto simp: endsWith_def startsWith_prefix)

lemma find_filename:
  "find P fs = Some f \<Longrightarrow> f \<in> set fs"
  by (induction fs) (auto split: if_splits)

lemma resolve_main_ok:
  assumes "runtimeFiles \<noteq> []" and "\<forall>f\<in>set runtimeFiles. filename f \<noteq> []"
  shows "\<exists>m. resolve_main w s i stored common runtimeFiles kind = Inr m"
proof -
  obtain f fs where fs: "runtimeFiles = f # fs" using assms(1) by (cases runtimeFiles) auto
  have "\<exists>m. choose_main stored common runtimeFiles = Some m \<and> m \<noteq> []"
  proof (cases "stored \<noteq> None \<and> stored \<noteq> Some []")
    case True
    then show ?thesis by (auto simp: choose_main_def)
  next
    case False
    show ?thesis
    proof (cases "find (\<lambda>f. toLowerCase (filename f) \<in> set common) runtimeFiles")
      case None
      with False fs assms(2) show ?thesis by (auto simp: choose_main_def)
    next
      case (Some g)
      with False assms(2) find_filename[OF Some] show ?thesis by (auto simp: choose_main_def)
    qed
  qed
  then show ?thesis using fs by (auto simp: resolve_main_def)
qed

lemma launch_ok:
  assumes "has_runtime_file (language b) files"
  shows "\<exists>c. launch w s i b files = Inr c"
proof -
  from assms consider
    (py) "language b = ''python''" "filter (\<lambda>f. endsWith (filename f) ''.py'') files \<noteq> []"
  | (js) "language b = ''nodejs''"
         "filter (\<lambda>f. endsWith (filename f) ''.js'' \<or> endsWith (filename f) ''.ts'') files \<noteq> []"
    by (auto simp: has_runtime_file_def list_ex_iff filter_empty_conv)
  then show ?thesis
  proof cases
    case py
    have "\<forall>f\<in>set (filter (\<lambda>f. endsWith (filename f) ''.py'') files). filename f \<noteq> []"
      by (auto dest: endsWith_nonempty)
    from resolve_main_ok[OF py(2) this] obtain m where
      "resolve_main w s i (mainFile b) python_main_files
         (filter (\<lambda>f. endsWith (filename f) ''.py'') files) ''Python'' = Inr m" by blast
    with py(1) show ?thesis by (simp add: launch_def)
  next
    case js
    have "\<forall>f\<in>set (filter (\<lambda>f. endsWith (filename f) ''.js'' \<or> endsWith (filename f) ''.ts'') files).
            filename f \<noteq> []"
      by (auto dest: endsWith_nonempty)
    from resolve_main_ok[OF js(2) this] obtain m where
      "resolve_main w s i (mainFile b) node_main_files
         (filter (\<lambda>f. endsWith (filename f) ''.js'' \<or> endsWith (filename f) ''.ts'') files)
         ''JavaScript'' = Inr m" by blast
    with js(1) show ?thesis by (simp add: launch_def)
  qed
qed

lemma start_attempt_ok:
  assumes "validateBot b = Inr ()"
    and "\<not> isSuspicious (analyzeCode (botFiles s botId))"
    and "mkdir_error w botId = None"
    and "\<forall>f\<in>set (botFiles s botId). write_error w botId (filename f) = None"
    and "has_runtime_file (language b) (botFiles s botId)"
  shows "fst (start_attempt w botId b s) = Inr \<lparr>success = True, message = ''Bot started successfully''\<rparr>"
proof -
  obtain r s1 where c: "createBotWorkspace w botId (botFiles s botId) (token b) s = (r, s1)"
    by (cases "createBotWorkspace w botId (botFiles s botId) (token b) s") auto
  with createBotWorkspace_ok[of w botId "botFiles s botId" "token b" s] assms(3,4)
  have r: "r = Inr botId" by simp
  let ?s3 = "installDependencies w botId (language b)
               (autoCreateDependencies w botId (language b) (botFiles s botId) s1)"
  from launch_ok[OF assms(5)] obtain ch where "launch w ?s3 botId b (botFiles s botId) = Inr ch"
    by blast
  with assms(1,2) c r show ?thesis
    by (simp add: start_attempt_def Let_def)
qed

lemma startBot_ok:
  assumes "bots s botId = Some b" and "processes s botId = None"
    and "validateBot b = Inr ()"
    and "\<not> isSuspicious (analyzeCode (botFiles s botId))"
    and "mkdir_error w botId = None"
    and "\<forall>f\<in>set (botFiles s botId). write_error w botId (filename f) = None"
    and "has_runtime_file (language b) (botFiles s botId)"
  shows "fst (startBot w botId s) = Inr \<lparr>success = True, message = ''Bot started successfully''\<rparr>"
proof -
  let ?s1 = "updateBot botId (\<lambda>b. b\<lparr>status := ''starting''\<rparr>) s"
  have "fst (start_attempt w botId b ?s1) = Inr \<lparr>success = True, message = ''Bot started successfully''\<rparr>"
    using assms by (intro start_attempt_ok) simp_all
  then show ?thesis
    using assms(1,2) by (auto simp: startBot_unfold split: prod.splits sum.splits)
qed


lemma score_pass: "file_score \<lparr>filename = n, content = ''pass''\<rparr> = 0"
  by (subst file_score_words_only)
     (simp_all add: structural_words_def word_lists_def mining_words_def hashing_words_def gpu_words_def
        attack_words_def proxy_words_def botnet_words_def toLowerChar_fix)

lemma pass_not_suspicious: "\<not> isSuspicious (analyzeCode pass_files)"
  by (simp add: isSuspicious_iff riskScore_sum pass_files_def score_pass)

lemma demo_start_ok:
  "fst (startBot demo_world ''b1'' (demo_engine pass_files))
     = Inr \<lparr>success = True, message = ''Bot started successfully''\<rparr>"
proof (rule startBot_ok)
  show "bots (demo_engine pass_files) ''b1'' = Some demo_bot" by (simp add: demo_engine_def)
  show "processes (demo_engine pass_files) ''b1'' = None" by (simp add: demo_engine_def)
  show "validateBot demo_bot = Inr ()" by (simp add: validateBot_def demo_bot_def)
  show "\<not> isSuspicious (analyzeCode (botFiles (demo_engine pass_files) ''b1''))"
    using pass_not_suspicious by (simp add: demo_engine_def)
  show "mkdir_error demo_world ''b1'' = None" by (simp add: demo_world_def)
  show "\<forall>f\<in>set (botFiles (demo_engine pass_files) ''b1''). write_error demo_world ''b1'' (filename f) = None"
    by (simp add: demo_world_def)
  show "has_runtime_file (language demo_bot) (botFiles (demo_engine pass_files) ''b1'')"
    by (simp add: has_runtime_file_def demo_bot_def demo_engine_def pass_files_def endsWith_def)
qed



lemma startBot_veto:
  assumes "bots s botId = Some b" and "processes s botId = None" and "validateBot b = Inr ()"
    and "isSuspicious (analyzeCode (botFiles s botId))"
  shows "startBot w botId s =
     (Inr \<lparr>success = False,
           message = ''Bot blocked by RADAR system. Suspicious activity detected: ''
                       @ hd (reasons (analyzeCode (botFiles s botId)))\<rparr>,
      logBotOutput botId ''error''
        (''RADAR: Suspicious code detected. Risk score: ''
           @ show_nat (riskScore (analyzeCode (botFiles s botId))) @ ''. Reasons: ''
           @ join '', '' (reasons (analyzeCode (botFiles s botId))))
        (updateBot botId (\<lambda>b. b\<lparr>status := ''error''\<rparr>) s))"
  using assms
  by (simp add: startBot_unfold start_attempt_def Let_def updateBot_def)

lemma startBot_no_veto:
  assumes "bots s botId = Some b" and "processes s botId = None" and "validateBot b = Inr ()"
    and "\<not> isSuspicious (analyzeCode (botFiles s botId))"
    and "fst (startBot w botId s) = Inr r"
  shows "\<not> startsWith (message r) ''Bot blocked by RADAR system''"
  using assms
  by (auto simp: startBot_unfold start_attempt_def Let_def
           split: prod.splits sum.splits if_splits)

lemma score_two_patterns: "file_score \<lparr>filename = n, content = ''mining hashrate''\<rparr> = 20"
  by (subst file_score_words_only)
     (simp_all add: structural_words_def word_lists_def mining_words_def hashing_words_def gpu_words_def
        attack_words_def proxy_words_def botnet_words_def toLowerChar_fix)

lemma score_three_patterns: "file_score \<lparr>filename = n, content = ''mining pool on a gpu''\<rparr> = 30"
  by (subst file_score_words_only)
     (simp_all add: structural_words_def word_lists_def mining_words_def hashing_words_def gpu_words_def
        attack_words_def proxy_words_def botnet_words_def toLowerChar_fix)

lemma mining_pattern_first:
  "suspiciousPatterns = words_i mining_words # tl suspiciousPatterns"
  by (simp add: suspiciousPatterns_def)

lemma mining_keyword_counts_once:
  assumes "k \<in> set mining_words" and "str_includes (toLowerCase c) k"
  shows "file_score \<lparr>filename = n, content = c\<rparr>
           = 10 + 10 * length (filter (\<lambda>p. test p (toLowerCase c)) (tl suspiciousPatterns))
             + (if length (split_on nl (toLowerCase c)) > 10000 then 5 else 0)
             + 15 * length (filter (\<lambda>p. test p (toLowerCase c)) obfuscationIndicators)"
proof -
  have "test (words_i mining_words) (toLowerCase c)"
    using assms by (auto simp: test_words_lower[OF lower_word_lists(1)] list_ex_iff)
  then have "length (filter (\<lambda>p. test p (toLowerCase c)) suspiciousPatterns)
               = Suc (length (filter (\<lambda>p. test p (toLowerCase c)) (tl suspiciousPatterns)))"
    by (subst mining_pattern_first) simp
  then show ?thesis by (simp add: file_score_def Let_def)
qed

text \<open>
  Claim C3, as amended. The verdict is suspicious exactly when the risk score exceeds 20.
  The score is the sum over the files of 10 for every pattern that matches, 5 for a file
  of more than 10000 lines and 15 for every obfuscation indicator that matches. A
  suspicious verdict makes \<^verbatim>\<open>startBot\<close> return failure with the first reason, persist
  status \<open>error\<close> and leave the process table and the workspace alone; without it the
  result is never the RADAR refusal. The mining keywords are the first of the nine
  patterns, which counts once: a file with two of them gets 10 for the two, and the rest
  of its score is what the other eight patterns, the size rule and the indicators add,
  so it is suspicious exactly when they add more than 10. The text \<open>mining bitcoin\<close>
  scores 10 and \<open>mining hashrate\<close>, whose second word belongs to another pattern,
  scores 20; neither is suspicious. A file that only says \<open>hello world\<close> scores 0.
\<close>

theorem radar_verdict_and_veto:
  "(isSuspicious (analyzeCode files) \<longleftrightarrow> riskScore (analyzeCode files) > 20)
   \<and> riskScore (analyzeCode files)
       = (\<Sum>f\<leftarrow>files.
            10 * length (filter (\<lambda>p. test p (toLowerCase (content f))) suspiciousPatterns)
            + (if length (split_on nl (toLowerCase (content f))) > 10000 then 5 else 0)
            + 15 * length (filter (\<lambda>p. test p (toLowerCase (content f))) obfuscationIndicators))
   \<and> (bots s botId = Some b \<and> processes s botId = None \<and> validateBot b = Inr ()
        \<and> isSuspicious (analyzeCode (botFiles s botId)) \<longrightarrow>
          fst (startBot w botId s)
            = Inr \<lparr>success = False,
                   message = ''Bot blocked by RADAR system. Suspicious activity detected: ''
                               @ hd (reasons (analyzeCode (botFiles s botId)))\<rparr>
          \<and> bots (snd (startBot w botId s)) = (bots s)(botId \<mapsto> b\<lparr>status := ''error''\<rparr>)
          \<and> processes (snd (startBot w botId s)) = processes s
          \<and> workspace (snd (startBot w botId s)) = workspace s)
   \<and> (bots s botId = Some b \<and> processes s botId = None \<and> validateBot b = Inr ()
        \<and> \<not> isSuspicious (analyzeCode (botFiles s botId)) \<and> fst (startBot w botId s) = Inr r \<longrightarrow>
          \<not> startsWith (message r) ''Bot blocked by RADAR system'')
   \<and> hd suspiciousPatterns = words_i mining_words \<and> length (tl suspiciousPatterns) = 8
   \<and> (k1 \<in> set mining_words \<and> k2 \<in> set mining_words \<and> k1 \<noteq> k2
        \<and> str_includes (toLowerCase c) k1 \<and> str_includes (toLowerCase c) k2 \<longrightarrow>
          riskScore (analyzeCode [\<lparr>filename = n, content = c\<rparr>])
            = 10 + (10 * length (filter (\<lambda>p. test p (toLowerCase c)) (tl suspiciousPatterns))
                    + (if length (split_on nl (toLowerCase c)) > 10000 then 5 else 0)
                    + 15 * length (filter (\<lambda>p. test p (toLowerCase c)) obfuscationIndicators))
          \<and> (isSuspicious (analyzeCode [\<lparr>filename = n, content = c\<rparr>]) \<longleftrightarrow>
                10 * length (filter (\<lambda>p. test p (toLowerCase c)) (tl suspiciousPatterns))
                  + (if length (split_on nl (toLowerCase c)) > 10000 then 5 else 0)
                  + 15 * length (filter (\<lambda>p. test p (toLowerCase c)) obfuscationIndicators) > 10))
   \<and> riskScore (analyzeCode [\<lparr>filename = n, content = ''mining bitcoin''\<rparr>]) = 10
   \<and> riskScore (analyzeCode [\<lparr>filename = n, content = ''mining hashrate''\<rparr>]) = 20
   \<and> \<not> isSuspicious (analyzeCode [\<lparr>filename = n, content = ''mining bitcoin''\<rparr>])
   \<and> \<not> isSuspicious (analyzeCode [\<lparr>filename = n, content = ''mining hashrate''\<rparr>])
   \<and> riskScore (analyzeCode [\<lparr>filename = n, content = ''hello world''\<rparr>]) = 0
   \<and> \<not> isSuspicious (analyzeCode [\<lparr>filename = n, content = ''hello world''\<rparr>])"
proof (intro conjI impI)
  show "hd suspiciousPatterns = words_i mining_words" by (simp add: suspiciousPatterns_def)
  show "length (tl suspiciousPatterns) = 8" by (simp add: suspiciousPatterns_def)
next
  assume a: "k1 \<in> set mining_words \<and> k2 \<in> set mining_words \<and> k1 \<noteq> k2
        \<and> str_includes (toLowerCase c) k1 \<and> str_includes (toLowerCase c) k2"
  then have sc: "riskScore (analyzeCode [\<lparr>filename = n, content = c\<rparr>])
            = 10 + (10 * length (filter (\<lambda>p. test p (toLowerCase c)) (tl suspiciousPatterns))
                    + (if length (split_on nl (toLowerCase c)) > 10000 then 5 else 0)
                    + 15 * length (filter (\<lambda>p. test p (toLowerCase c)) obfuscationIndicators))"
    using mining_keyword_counts_once[of k1 c n] by (simp add: riskScore_sum)
  then show "riskScore (analyzeCode [\<lparr>filename = n, content = c\<rparr>])
            = 10 + (10 * length (filter (\<lambda>p. test p (toLowerCase c)) (tl suspiciousPatterns))
                    + (if length (split_on nl (toLowerCase c)) > 10000 then 5 else 0)
                    + 15 * length (filter (\<lambda>p. test p (toLowerCase c)) obfuscationIndicators))" .
  show "isSuspicious (analyzeCode [\<lparr>filename = n, content = c\<rparr>]) \<longleftrightarrow>
                10 * length (filter (\<lambda>p. test p (toLowerCase c)) (tl suspiciousPatterns))
                  + (if length (split_on nl (toLowerCase c)) > 10000 then 5 else 0)
                  + 15 * length (filter (\<lambda>p. test p (toLowerCase c)) obfuscationIndicators) > 10"
    unfolding isSuspicious_iff sc by arith
next
  show "isSuspicious (analyzeCode files) \<longleftrightarrow> riskScore (analyzeCode files) > 20"
    by (rule isSuspicious_iff)
  show "riskScore (analyzeCode files)
       = (\<Sum>f\<leftarrow>files.
            10 * length (filter (\<lambda>p. test p (toLowerCase (content f))) suspiciousPatterns)
            + (if length (split_on nl (toLowerCase (content f))) > 10000 then 5 else 0)
            + 15 * length (filter (\<lambda>p. test p (toLowerCase (content f))) obfuscationIndicators))"
    unfolding riskScore_sum
    by (rule arg_cong[where f = sum_list], rule map_cong) (simp_all add: file_score_def Let_def)
next
  assume a: "bots s botId = Some b \<and> processes s botId = None \<and> validateBot b = Inr ()
        \<and> isSuspicious (analyzeCode (botFiles s botId))"
  then have v: "startBot w botId s =
     (Inr \<lparr>success = False,
           message = ''Bot blocked by RADAR system. Suspicious activity detected: ''
                       @ hd (reasons (analyzeCode (botFiles s botId)))\<rparr>,
      logBotOutput botId ''error''
        (''RADAR: Suspicious code detected. Risk score: ''
           @ show_nat (riskScore (analyzeCode (botFiles s botId))) @ ''. Reasons: ''
           @ join '', '' (reasons (analyzeCode (botFiles s botId))))
        (updateBot botId (\<lambda>b. b\<lparr>status := ''error''\<rparr>) s))"
    by (intro startBot_veto) blast+
  show "fst (startBot w botId s)
            = Inr \<lparr>success = False,
                   message = ''Bot blocked by RADAR system. Suspicious activity detected: ''
                               @ hd (reasons (analyzeCode (botFiles s botId)))\<rparr>"
    by (simp add: v)
  show "bots (snd (startBot w botId s)) = (bots s)(botId \<mapsto> b\<lparr>status := ''error''\<rparr>)"
    using a by (simp add: v updateBot_bots)
  show "processes (snd (startBot w botId s)) = processes s" by (simp add: v)
  show "workspace (snd (startBot w botId s)) = workspace s" by (simp add: v)
next
  assume "bots s botId = Some b \<and> processes s botId = None \<and> validateBot b = Inr ()
        \<and> \<not> isSuspicious (analyzeCode (botFiles s botId)) \<and> fst (startBot w botId s) = Inr r"
  then show "\<not> startsWith (message r) ''Bot blocked by RADAR system''"
    using startBot_no_veto by blast
next
  show "riskScore (analyzeCode [\<lparr>filename = n, content = ''mining bitcoin''\<rparr>]) = 10"
    by (simp add: riskScore_sum score_mining_bitcoin)
  show "riskScore (analyzeCode [\<lparr>filename = n, content = ''mining hashrate''\<rparr>]) = 20"
    by (simp add: riskScore_sum score_two_patterns)
  show "\<not> isSuspicious (analyzeCode [\<lparr>filename = n, content = ''mining bitcoin''\<rparr>])"
    by (simp add: isSuspicious_iff riskScore_sum score_mining_bitcoin)
  show "\<not> isSuspicious (analyzeCode [\<lparr>filename = n, content = ''mining hashrate''\<rparr>])"
    by (simp add: isSuspicious_iff riskScore_sum score_two_patterns)
  show "riskScore (analyzeCode [\<lparr>filename = n, content = ''hello world''\<rparr>]) = 0"
    by (simp add: riskScore_sum score_hello_world)
  show "\<not> isSuspicious (analyzeCode [\<lparr>filename = n, content = ''hello world''\<rparr>])"
    by (simp add: isSuspicious_iff riskScore_sum score_hello_world)
qed

lemma demo_facts:
  "bots (demo_engine fs) ''b1'' = Some demo_bot"
  "processes (demo_engine fs) ''b1'' = None"
  "botFiles (demo_engine fs) ''b1'' = fs"
  "validateBot demo_bot = Inr ()"
  "mkdir_error demo_world d = None"
  "write_error demo_world d f = None"
  "language demo_bot = ''python''"
  by (simp_all add: demo_engine_def demo_bot_def demo_world_def validateBot_def)

lemma python_runtime_file:
  "endsWith n ''.py'' \<Longrightarrow> has_runtime_file ''python'' (\<lparr>filename = n, content = c\<rparr> # fs)"
  by (simp add: has_runtime_file_def)

text \<open>
  Claim C3 as stated fails: a file with the two mining keywords \<open>mining\<close> and \<open>bitcoin\<close>
  scores 10, is not suspicious, and the bot starts.
\<close>

theorem two_mining_keywords_counterexample:
  "str_includes ''mining bitcoin'' ''mining'' \<and> str_includes ''mining bitcoin'' ''bitcoin''
   \<and> riskScore (analyzeCode [\<lparr>filename = ''miner.py'', content = ''mining bitcoin''\<rparr>]) = 10
   \<and> \<not> isSuspicious (analyzeCode [\<lparr>filename = ''miner.py'', content = ''mining bitcoin''\<rparr>])
   \<and> fst (startBot demo_world ''b1''
             (demo_engine [\<lparr>filename = ''miner.py'', content = ''mining bitcoin''\<rparr>]))
       = Inr \<lparr>success = True, message = ''Bot started successfully''\<rparr>"
proof -
  let ?fs = "[\<lparr>filename = ''miner.py'', content = ''mining bitcoin''\<rparr>]"
  have sc: "riskScore (analyzeCode ?fs) = 10"
    by (simp add: riskScore_sum score_mining_bitcoin)
  then have ns: "\<not> isSuspicious (analyzeCode ?fs)"
    by (simp add: isSuspicious_iff)
  have "fst (startBot demo_world ''b1'' (demo_engine ?fs))
          = Inr \<lparr>success = True, message = ''Bot started successfully''\<rparr>"
    by (rule startBot_ok[where b = demo_bot])
       (simp_all add: demo_facts ns python_runtime_file endsWith_def)
  with sc ns show ?thesis by simp
qed

theorem radar_verdict_and_veto_witness:
  "riskScore (analyzeCode [\<lparr>filename = ''miner.py'', content = ''mining pool on a gpu''\<rparr>]) = 30
   \<and> (\<exists>m. fst (startBot demo_world ''b1''
                 (demo_engine [\<lparr>filename = ''miner.py'', content = ''mining pool on a gpu''\<rparr>]))
            = Inr \<lparr>success = False, message = m\<rparr>)
   \<and> bots (snd (startBot demo_world ''b1''
                 (demo_engine [\<lparr>filename = ''miner.py'', content = ''mining pool on a gpu''\<rparr>])))
       = [''b1'' \<mapsto> demo_bot\<lparr>status := ''error''\<rparr>]
   \<and> fst (startBot demo_world ''b1''
             (demo_engine [\<lparr>filename = ''miner.py'', content = ''mining hashrate''\<rparr>]))
       = Inr \<lparr>success = True, message = ''Bot started successfully''\<rparr>
   \<and> \<not> startsWith ''Bot started successfully'' ''Bot blocked by RADAR system''
   \<and> ''mining'' \<in> set mining_words \<and> ''bitcoin'' \<in> set mining_words
   \<and> str_includes (toLowerCase ''mining bitcoin'') ''mining''
   \<and> str_includes (toLowerCase ''mining bitcoin'') ''bitcoin''
   \<and> filter (\<lambda>p. test p (toLowerCase ''mining bitcoin'')) (tl suspiciousPatterns) = []
   \<and> filter (\<lambda>p. test p (toLowerCase ''mining bitcoin'')) obfuscationIndicators = []"
proof -
  let ?bad = "[\<lparr>filename = ''miner.py'', content = ''mining pool on a gpu''\<rparr>]"
  let ?ok = "[\<lparr>filename = ''miner.py'', content = ''mining hashrate''\<rparr>]"
  have sc: "riskScore (analyzeCode ?bad) = 30"
    by (simp add: riskScore_sum score_three_patterns)
  have ok: "fst (startBot demo_world ''b1'' (demo_engine ?ok))
          = Inr \<lparr>success = True, message = ''Bot started successfully''\<rparr>"
    by (rule startBot_ok[where b = demo_bot])
       (simp_all add: demo_facts isSuspicious_iff riskScore_sum score_two_patterns
          python_runtime_file endsWith_def)
  have ns: "\<not> isSuspicious (analyzeCode ?ok)"
    by (simp add: isSuspicious_iff riskScore_sum score_two_patterns)
  note t1 = radar_verdict_and_veto[of ?bad "demo_engine ?bad" "''b1''" demo_bot demo_world]
  note t2 = radar_verdict_and_veto[of ?ok "demo_engine ?ok" "''b1''" demo_bot demo_world
              "\<lparr>success = True, message = ''Bot started successfully''\<rparr>"]
  have su: "isSuspicious (analyzeCode ?bad)" using t1 sc by simp
  from t1 su have 1: "(\<exists>m. fst (startBot demo_world ''b1'' (demo_engine ?bad))
            = Inr \<lparr>success = False, message = m\<rparr>)
      \<and> bots (snd (startBot demo_world ''b1'' (demo_engine ?bad)))
          = [''b1'' \<mapsto> demo_bot\<lparr>status := ''error''\<rparr>]"
    by (simp add: demo_facts) (simp add: demo_engine_def)
  from t2 ns ok have 2: "\<not> startsWith ''Bot started successfully'' ''Bot blocked by RADAR system''"
    by (simp add: demo_facts)
  note t3 = radar_verdict_and_veto[where ?k1.0 = "''mining''" and ?k2.0 = "''bitcoin''"
              and c = "''mining bitcoin''" and n = "''miner.py''"]
  have k: "''mining'' \<in> set mining_words \<and> ''bitcoin'' \<in> set mining_words
      \<and> str_includes (toLowerCase ''mining bitcoin'') ''mining''
      \<and> str_includes (toLowerCase ''mining bitcoin'') ''bitcoin''"
    by (simp add: mining_words_def toLowerChar_fix)
  note general = t3[THEN conjunct2, THEN conjunct2, THEN conjunct2, THEN conjunct2,
                     THEN conjunct2, THEN conjunct2, THEN conjunct1]
  note example = t3[THEN conjunct2, THEN conjunct2, THEN conjunct2, THEN conjunct2,
                     THEN conjunct2, THEN conjunct2, THEN conjunct2, THEN conjunct1]
  from general k have "riskScore (analyzeCode [\<lparr>filename = ''miner.py'', content = ''mining bitcoin''\<rparr>])
      = 10 + (10 * length (filter (\<lambda>p. test p (toLowerCase ''mining bitcoin'')) (tl suspiciousPatterns))
        + (if length (split_on nl (toLowerCase ''mining bitcoin'')) > 10000 then 5 else 0)
        + 15 * length (filter (\<lambda>p. test p (toLowerCase ''mining bitcoin'')) obfuscationIndicators))"
    by blast
  with example have "length (filter (\<lambda>p. test p (toLowerCase ''mining bitcoin'')) (tl suspiciousPatterns)) = 0
      \<and> length (filter (\<lambda>p. test p (toLowerCase ''mining bitcoin'')) obfuscationIndicators) = 0"
    by linarith
  then have 3: "filter (\<lambda>p. test p (toLowerCase ''mining bitcoin'')) (tl suspiciousPatterns) = []
      \<and> filter (\<lambda>p. test p (toLowerCase ''mining bitcoin'')) obfuscationIndicators = []"
    by (simp only: length_0_conv)
  from sc 1 2 3 k ok show ?thesis by blast
qed

lemma score_four_keywords:
  "file_score \<lparr>filename = n, content = ''mining miner crypto bitcoin''\<rparr> = 10"
  by (subst file_score_words_only)
     (simp_all add: structural_words_def word_lists_def mining_words_def hashing_words_def gpu_words_def
        attack_words_def proxy_words_def botnet_words_def toLowerChar_fix)

text \<open>
  Claim C10. A keyword pattern matches exactly when one of its keywords is a substring
  of the lower-cased text; the first six of the nine patterns are keyword patterns. The
  nine patterns add 10 for each pattern that matches, so at most 90 for a file, however
  many keywords of a pattern occur (four keywords of the first pattern score 10). The
  text \<open>method difficulty history\<close> scores 30 (\<open>eth\<close> in method, \<open>difficulty\<close>, \<open>tor\<close> in
  history), is suspicious, and a bot with this one file is refused with status \<open>error\<close>.
\<close>

theorem radar_matches_substrings_once_per_pattern:
  "(test (words_i ws) c \<longleftrightarrow> list_ex (\<lambda>k. str_includes (toLowerCase c) (toLowerCase k)) ws)
   \<and> suspiciousPatterns
       = map words_i [mining_words, hashing_words, gpu_words, attack_words, proxy_words, botnet_words]
         @ [loop_pattern, fork_pattern, memory_pattern]
   \<and> snd (scan_patterns name c suspiciousPatterns (rs, score))
       = score + 10 * length (filter (\<lambda>p. test p c) suspiciousPatterns)
   \<and> snd (scan_patterns name c suspiciousPatterns (rs, score)) \<le> score + 90
   \<and> riskScore (analyzeCode [\<lparr>filename = name, content = ''mining miner crypto bitcoin''\<rparr>]) = 10
   \<and> riskScore (analyzeCode [\<lparr>filename = name, content = ''method difficulty history''\<rparr>]) = 30
   \<and> isSuspicious (analyzeCode [\<lparr>filename = name, content = ''method difficulty history''\<rparr>])
   \<and> (bots s botId = Some b \<and> processes s botId = None \<and> validateBot b = Inr ()
        \<and> botFiles s botId = [\<lparr>filename = name, content = ''method difficulty history''\<rparr>] \<longrightarrow>
          (\<exists>m. fst (startBot w botId s) = Inr \<lparr>success = False, message = m\<rparr>
                \<and> startsWith m ''Bot blocked by RADAR system'')
          \<and> bots (snd (startBot w botId s)) = (bots s)(botId \<mapsto> b\<lparr>status := ''error''\<rparr>)
          \<and> processes (snd (startBot w botId s)) = processes s)"
proof (intro conjI impI)
  show "test (words_i ws) c \<longleftrightarrow> list_ex (\<lambda>k. str_includes (toLowerCase c) (toLowerCase k)) ws"
    by (rule test_words)
  show "suspiciousPatterns
       = map words_i [mining_words, hashing_words, gpu_words, attack_words, proxy_words, botnet_words]
         @ [loop_pattern, fork_pattern, memory_pattern]"
    by (simp add: suspiciousPatterns_def)
  show "snd (scan_patterns name c suspiciousPatterns (rs, score))
       = score + 10 * length (filter (\<lambda>p. test p c) suspiciousPatterns)"
    by (simp add: scan_patterns_score)
  have "length (filter (\<lambda>p. test p c) suspiciousPatterns) \<le> length suspiciousPatterns"
    by (rule length_filter_le)
  also have "length suspiciousPatterns = 9" by (simp add: suspiciousPatterns_def)
  finally show "snd (scan_patterns name c suspiciousPatterns (rs, score)) \<le> score + 90"
    by (simp add: scan_patterns_score)
  show "riskScore (analyzeCode [\<lparr>filename = name, content = ''mining miner crypto bitcoin''\<rparr>]) = 10"
    by (simp add: riskScore_sum score_four_keywords)
  show sc: "riskScore (analyzeCode [\<lparr>filename = name, content = ''method difficulty history''\<rparr>]) = 30"
    by (simp add: riskScore_sum score_benign_words)
  show su: "isSuspicious (analyzeCode [\<lparr>filename = name, content = ''method difficulty history''\<rparr>])"
    by (simp add: isSuspicious_iff sc)
next
  assume a: "bots s botId = Some b \<and> processes s botId = None \<and> validateBot b = Inr ()
        \<and> botFiles s botId = [\<lparr>filename = name, content = ''method difficulty history''\<rparr>]"
  then have su: "isSuspicious (analyzeCode (botFiles s botId))"
    by (simp add: isSuspicious_iff riskScore_sum score_benign_words)
  have v: "startBot w botId s =
     (Inr \<lparr>success = False,
           message = ''Bot blocked by RADAR system. Suspicious activity detected: ''
                       @ hd (reasons (analyzeCode (botFiles s botId)))\<rparr>,
      logBotOutput botId ''error''
        (''RADAR: Suspicious code detected. Risk score: ''
           @ show_nat (riskScore (analyzeCode (botFiles s botId))) @ ''. Reasons: ''
           @ join '', '' (reasons (analyzeCode (botFiles s botId))))
        (updateBot botId (\<lambda>b. b\<lparr>status := ''error''\<rparr>) s))"
    using a su by (intro startBot_veto) blast+
  show "\<exists>m. fst (startBot w botId s) = Inr \<lparr>success = False, message = m\<rparr>
                \<and> startsWith m ''Bot blocked by RADAR system''"
    by (simp add: v)
  show "bots (snd (startBot w botId s)) = (bots s)(botId \<mapsto> b\<lparr>status := ''error''\<rparr>)"
    using a by (simp add: v updateBot_bots)
  show "processes (snd (startBot w botId s)) = processes s" by (simp add: v)
qed

theorem radar_matches_substrings_once_per_pattern_witness:
  "test (words_i mining_words) ''method'' \<and> str_includes ''method'' ''eth''
   \<and> (\<exists>m. fst (startBot demo_world ''b1''
                 (demo_engine [\<lparr>filename = ''notes.py'', content = ''method difficulty history''\<rparr>]))
            = Inr \<lparr>success = False, message = m\<rparr> \<and> startsWith m ''Bot blocked by RADAR system'')
   \<and> bots (snd (startBot demo_world ''b1''
                 (demo_engine [\<lparr>filename = ''notes.py'', content = ''method difficulty history''\<rparr>])))
       = [''b1'' \<mapsto> demo_bot\<lparr>status := ''error''\<rparr>]"
proof -
  let ?fs = "[\<lparr>filename = ''notes.py'', content = ''method difficulty history''\<rparr>]"
  note t = radar_matches_substrings_once_per_pattern[of mining_words "''method''" "''notes.py''" "[]" 0
             "demo_engine ?fs" "''b1''" demo_bot demo_world]
  have 1: "test (words_i mining_words) ''method''"
    using t by (simp add: mining_words_def toLowerChar_fix)
  have 2: "str_includes ''method'' ''eth''" by simp
  from t have 3: "(\<exists>m. fst (startBot demo_world ''b1'' (demo_engine ?fs))
            = Inr \<lparr>success = False, message = m\<rparr> \<and> startsWith m ''Bot blocked by RADAR system'')
     \<and> bots (snd (startBot demo_world ''b1'' (demo_engine ?fs))) = [''b1'' \<mapsto> demo_bot\<lparr>status := ''error''\<rparr>]"
    by (simp add: demo_facts) (simp add: demo_engine_def)
  from 1 2 3 show ?thesis by blast
qed

section \<open>Properties: stopping a bot\<close>

lemma stopBot_running:
  assumes "processes s botId = Some p"
  shows "stopBot w botId StillRunning s =
     (\<lparr>success = True, message = ''Bot stopped successfully''\<rparr>,
      remove_workspace w botId
        (updateBot botId (reset_fields ''stopped'')
           (s\<lparr>signals := signals s @ [(botId, ''SIGTERM''), (botId, ''SIGKILL'')],
              processes := (processes s)(botId := None)\<rparr>)))"
  using assms by (simp add: stopBot_def Let_def send_signal_def)

lemma remove_workspace_frame [simp]:
  "bots (remove_workspace w i s) = bots s"
  "processes (remove_workspace w i s) = processes s"
  "botLogs (remove_workspace w i s) = botLogs s"
  "botFiles (remove_workspace w i s) = botFiles s"
  "signals (remove_workspace w i s) = signals s"
  by (simp_all add: remove_workspace_def split: option.splits)

lemma on_exit_bots:
  "bots s botId = Some b \<Longrightarrow>
     bots (on_exit botId code s) = (bots s)(botId \<mapsto> reset_fields (exit_status code) b)"
  by (simp add: on_exit_def on_exit_steps_def Let_def updateBot_def)

lemma on_exit_frame [simp]:
  "processes (on_exit botId code s) = (processes s)(botId := None)"
  "signals (on_exit botId code s) = signals s"
  "workspace (on_exit botId code s) = workspace s"
  by (simp_all add: on_exit_def on_exit_steps_def Let_def)

lemma stop_escalation:
  assumes "bots s botId = Some b" and "processes s botId = Some p"
  shows "fst (stop_and_settle w botId StillRunning s)
           = \<lparr>success = True, message = ''Bot stopped successfully''\<rparr>"
    and "signals (snd (stop_and_settle w botId StillRunning s))
           = signals s @ [(botId, ''SIGTERM''), (botId, ''SIGKILL'')]"
    and "processes (snd (stop_and_settle w botId StillRunning s)) botId = None"
    and "bots (snd (stopBot w botId StillRunning s)) = (bots s)(botId \<mapsto> reset_fields ''stopped'' b)"
    and "bots (snd (stop_and_settle w botId StillRunning s)) = (bots s)(botId \<mapsto> reset_fields ''error'' b)"
proof -
  let ?s' = "remove_workspace w botId
        (updateBot botId (reset_fields ''stopped'')
           (s\<lparr>signals := signals s @ [(botId, ''SIGTERM''), (botId, ''SIGKILL'')],
              processes := (processes s)(botId := None)\<rparr>))"
  have st: "stopBot w botId StillRunning s = (\<lparr>success = True, message = ''Bot stopped successfully''\<rparr>, ?s')"
    using assms(2) by (rule stopBot_running)
  have ss: "stop_and_settle w botId StillRunning s
      = (\<lparr>success = True, message = ''Bot stopped successfully''\<rparr>, on_exit botId None ?s')"
    using assms(2) by (simp add: stop_and_settle_def st)
  have b': "bots ?s' botId = Some (reset_fields ''stopped'' b)"
    using assms(1) by (simp add: updateBot_def)
  show "fst (stop_and_settle w botId StillRunning s)
           = \<lparr>success = True, message = ''Bot stopped successfully''\<rparr>" by (simp add: ss)
  show "signals (snd (stop_and_settle w botId StillRunning s))
           = signals s @ [(botId, ''SIGTERM''), (botId, ''SIGKILL'')]" by (simp add: ss)
  show "processes (snd (stop_and_settle w botId StillRunning s)) botId = None" by (simp add: ss)
  show "bots (snd (stopBot w botId StillRunning s)) = (bots s)(botId \<mapsto> reset_fields ''stopped'' b)"
    using assms(1) by (simp add: st updateBot_def)
  have bs: "bots ?s' = (bots s)(botId \<mapsto> reset_fields ''stopped'' b)"
    using assms(1) by (simp add: updateBot_def)
  have "bots (on_exit botId None ?s')
          = (bots ?s')(botId \<mapsto> reset_fields (exit_status None) (reset_fields ''stopped'' b))"
    by (rule on_exit_bots[OF b'])
  also have "\<dots> = (bots s)(botId \<mapsto> reset_fields ''error'' b)"
    unfolding bs by (simp add: exit_status_def reset_fields_def)
  finally show "bots (snd (stop_and_settle w botId StillRunning s))
                  = (bots s)(botId \<mapsto> reset_fields ''error'' b)"
    by (simp only: ss snd_conv)
qed

lemma start_attempt_signals:
  assumes "start_attempt w botId b s = (r, s')"
  shows "signals s' = signals s"
  using assms
  by (auto simp: start_attempt_def Let_def split: sum.splits if_splits prod.splits
        dest!: createBotWorkspace_frame)

lemma demo_started:
  "bots (snd (startBot demo_world ''b1'' (demo_engine pass_files))) ''b1''
     = Some (demo_bot\<lparr>status := ''running'', processId := Some 4242, lastStarted := Some 1000\<rparr>)"
  "\<exists>c. processes (snd (startBot demo_world ''b1'' (demo_engine pass_files))) ''b1'' = Some c"
  "signals (snd (startBot demo_world ''b1'' (demo_engine pass_files))) = []"
proof -
  let ?s = "demo_engine pass_files"
  obtain s' where s': "startBot demo_world ''b1'' ?s
      = (Inr \<lparr>success = True, message = ''Bot started successfully''\<rparr>, s')"
    using demo_start_ok by (cases "startBot demo_world ''b1'' ?s") auto
  have b: "bots ?s ''b1'' = Some demo_bot" by (simp add: demo_engine_def)
  have np: "processes ?s ''b1'' = None" by (simp add: demo_engine_def)
  let ?s1 = "updateBot ''b1'' (\<lambda>b. b\<lparr>status := ''starting''\<rparr>) ?s"
  from s' b np have sa: "start_attempt demo_world ''b1'' demo_bot ?s1
      = (Inr \<lparr>success = True, message = ''Bot started successfully''\<rparr>, s')"
    by (auto simp: startBot_unfold split: prod.splits sum.splits)
  have b1: "bots ?s1 ''b1'' = Some (demo_bot\<lparr>status := ''starting''\<rparr>)"
    using b by (simp add: updateBot_def)
  from start_attempt_success[OF sa _ b1]
  have r: "(\<exists>c. processes s' ''b1'' = Some c)
      \<and> bots s' ''b1''
          = Some (demo_bot\<lparr>status := ''running'', processId := Some 4242, lastStarted := Some 1000\<rparr>)"
    by (auto simp: demo_world_def)
  from r show "bots (snd (startBot demo_world ''b1'' ?s)) ''b1''
     = Some (demo_bot\<lparr>status := ''running'', processId := Some 4242, lastStarted := Some 1000\<rparr>)"
    by (simp add: s')
  from r show "\<exists>c. processes (snd (startBot demo_world ''b1'' ?s)) ''b1'' = Some c"
    by (simp add: s')
  from start_attempt_signals[OF sa]
  have "signals s' = []" by (simp add: demo_engine_def)
  then show "signals (snd (startBot demo_world ''b1'' ?s)) = []"
    by (simp add: s')
qed

text \<open>
  Claim C4, on the code. The bot of the examples is started and then stopped, and its
  child is still there when the five seconds are over. The child is sent the forceful
  signal after the graceful one, its handle is removed, \<^verbatim>\<open>stopBot\<close> returns success and has
  persisted \<open>stopped\<close>. The exit of the killed child is observed after that, with no exit
  code, and the exit observer persists \<open>error\<close>: the status the store is left with is
  \<open>error\<close>.
\<close>

theorem stop_escalation_final_status:
  "fst (startBot demo_world ''b1'' (demo_engine pass_files))
     = Inr \<lparr>success = True, message = ''Bot started successfully''\<rparr>
   \<and> fst (stop_and_settle demo_world ''b1'' StillRunning
            (snd (startBot demo_world ''b1'' (demo_engine pass_files))))
     = \<lparr>success = True, message = ''Bot stopped successfully''\<rparr>
   \<and> signals (snd (stop_and_settle demo_world ''b1'' StillRunning
                     (snd (startBot demo_world ''b1'' (demo_engine pass_files)))))
       = [(''b1'', ''SIGTERM''), (''b1'', ''SIGKILL'')]
   \<and> processes (snd (stop_and_settle demo_world ''b1'' StillRunning
                       (snd (startBot demo_world ''b1'' (demo_engine pass_files))))) ''b1'' = None
   \<and> map_option status
         (bots (snd (stopBot demo_world ''b1'' StillRunning
                       (snd (startBot demo_world ''b1'' (demo_engine pass_files))))) ''b1'')
       = Some ''stopped''
   \<and> map_option status
         (bots (snd (stop_and_settle demo_world ''b1'' StillRunning
                       (snd (startBot demo_world ''b1'' (demo_engine pass_files))))) ''b1'')
       = Some ''error''"
proof -
  let ?s = "snd (startBot demo_world ''b1'' (demo_engine pass_files))"
  note b = demo_started(1)
  obtain p where p: "processes ?s ''b1'' = Some p"
    using demo_started(2) by blast
  show ?thesis
    using stop_escalation[OF b p, of demo_world] demo_started(3) demo_start_ok
    by (simp add: reset_fields_def)
qed

section \<open>Properties: the workspace\<close>

lemma createBotWorkspace_fails:
  "(\<exists>e. fst (createBotWorkspace w i fs t s) = Inl e) \<longleftrightarrow>
     mkdir_error w i \<noteq> None \<or> (\<exists>f\<in>set fs. write_error w i (filename f) \<noteq> None)"
proof -
  have "(\<exists>e. fst (createBotWorkspace w i fs t s) = Inl e)
          \<longleftrightarrow> fst (createBotWorkspace w i fs t s) \<noteq> Inr i"
    by (cases "createBotWorkspace w i fs t s"; cases "fst (createBotWorkspace w i fs t s)")
       (auto dest: createBotWorkspace_value)
  also have "\<dots> \<longleftrightarrow> \<not> (mkdir_error w i = None \<and> (\<forall>f\<in>set fs. write_error w i (filename f) = None))"
    by (simp only: createBotWorkspace_ok)
  finally show ?thesis by auto
qed

text \<open>
  Claim C8, as amended. Materialization succeeds exactly when the directory can be made
  and every file can be written, and fails exactly when one of them cannot. With no file
  at all it succeeds and makes the directory, which is empty when there was none before;
  nothing is logged or written to the console and no bot record changes.
\<close>

theorem workspace_fails_only_on_io:
  "(fst (createBotWorkspace w botId files botToken s) = Inr botId \<longleftrightarrow>
      mkdir_error w botId = None \<and> (\<forall>f\<in>set files. write_error w botId (filename f) = None))
   \<and> ((\<exists>e. fst (createBotWorkspace w botId files botToken s) = Inl e) \<longleftrightarrow>
      mkdir_error w botId \<noteq> None \<or> (\<exists>f\<in>set files. write_error w botId (filename f) \<noteq> None))
   \<and> (mkdir_error w botId = None \<longrightarrow>
        createBotWorkspace w botId [] botToken s = (Inr botId, mkdir botId s))
   \<and> (workspace s botId = None \<longrightarrow> workspace (mkdir botId s) botId = Some Map.empty)
   \<and> botLogs (mkdir botId s) = botLogs s \<and> console (mkdir botId s) = console s
   \<and> bots (mkdir botId s) = bots s \<and> processes (mkdir botId s) = processes s"
proof (intro conjI impI)
  show "fst (createBotWorkspace w botId files botToken s) = Inr botId \<longleftrightarrow>
      mkdir_error w botId = None \<and> (\<forall>f\<in>set files. write_error w botId (filename f) = None)"
    by (rule createBotWorkspace_ok)
  show "(\<exists>e. fst (createBotWorkspace w botId files botToken s) = Inl e) \<longleftrightarrow>
      mkdir_error w botId \<noteq> None \<or> (\<exists>f\<in>set files. write_error w botId (filename f) \<noteq> None)"
    by (rule createBotWorkspace_fails)
next
  assume "mkdir_error w botId = None"
  then show "createBotWorkspace w botId [] botToken s = (Inr botId, mkdir botId s)"
    by (simp add: createBotWorkspace_def)
next
  assume "workspace s botId = None"
  then show "workspace (mkdir botId s) botId = Some Map.empty"
    by (simp add: mkdir_def)
qed simp_all

text \<open>
  Claim C8 as stated fails: for a bot with zero files materialization returns the
  directory and leaves an empty workspace.
\<close>

theorem empty_workspace_counterexample:
  "botFiles (demo_engine []) ''b1'' = []
   \<and> createBotWorkspace demo_world ''b1'' [] ''SECRET'' (demo_engine [])
       = (Inr ''b1'', (demo_engine [])\<lparr>workspace := [''b1'' \<mapsto> Map.empty]\<rparr>)"
  by (simp add: createBotWorkspace_def demo_world_def demo_engine_def mkdir_def)

theorem workspace_fails_only_on_io_witness:
  "fst (createBotWorkspace (demo_world\<lparr>write_error := (\<lambda>d f. if f = ''b.py'' then Some ''EACCES'' else None)\<rparr>)
          ''b1'' [\<lparr>filename = ''a.py'', content = ''pass''\<rparr>, \<lparr>filename = ''b.py'', content = ''pass''\<rparr>]
          ''SECRET'' (demo_engine [])) \<noteq> Inr ''b1''
   \<and> (\<exists>e. fst (createBotWorkspace (demo_world\<lparr>write_error := (\<lambda>d f. if f = ''b.py'' then Some ''EACCES'' else None)\<rparr>)
          ''b1'' [\<lparr>filename = ''a.py'', content = ''pass''\<rparr>, \<lparr>filename = ''b.py'', content = ''pass''\<rparr>]
          ''SECRET'' (demo_engine [])) = Inl e)
   \<and> fst (createBotWorkspace demo_world ''b1''
          [\<lparr>filename = ''a.py'', content = ''pass''\<rparr>, \<lparr>filename = ''b.py'', content = ''pass''\<rparr>]
          ''SECRET'' (demo_engine [])) = Inr ''b1''
   \<and> createBotWorkspace demo_world ''b1'' [] ''SECRET'' (demo_engine []) = (Inr ''b1'', mkdir ''b1'' (demo_engine []))
   \<and> workspace (mkdir ''b1'' (demo_engine [])) ''b1'' = Some Map.empty"
proof -
  let ?w = "demo_world\<lparr>write_error := (\<lambda>d f. if f = ''b.py'' then Some ''EACCES'' else None)\<rparr>"
  let ?fs = "[\<lparr>filename = ''a.py'', content = ''pass''\<rparr>, \<lparr>filename = ''b.py'', content = ''pass''\<rparr>]"
  note t1 = workspace_fails_only_on_io[of ?w "''b1''" ?fs "''SECRET''" "demo_engine []"]
  note t2 = workspace_fails_only_on_io[of demo_world "''b1''" "[]" "''SECRET''" "demo_engine []"]
  note t3 = workspace_fails_only_on_io[of demo_world "''b1''" ?fs "''SECRET''" "demo_engine []"]
  have ws: "workspace (demo_engine []) ''b1'' = None" by (simp add: demo_engine_def)
  from t1 have 1: "fst (createBotWorkspace ?w ''b1'' ?fs ''SECRET'' (demo_engine [])) \<noteq> Inr ''b1''
     \<and> (\<exists>e. fst (createBotWorkspace ?w ''b1'' ?fs ''SECRET'' (demo_engine [])) = Inl e)"
    by simp
  from t2 ws have 2: "createBotWorkspace demo_world ''b1'' [] ''SECRET'' (demo_engine []) = (Inr ''b1'', mkdir ''b1'' (demo_engine []))
     \<and> workspace (mkdir ''b1'' (demo_engine [])) ''b1'' = Some Map.empty"
    by (simp add: demo_facts)
  from t3 have 3: "fst (createBotWorkspace demo_world ''b1'' ?fs ''SECRET'' (demo_engine [])) = Inr ''b1''"
    by (simp add: demo_facts)
  from 1 2 3 show ?thesis by blast
qed

section \<open>Properties: the installer\<close>





lemma file_exists_install [simp]:
  "file_exists (installDependencies w i l s) i' m = file_exists s i' m"
  by (simp add: file_exists_def)

lemma path_exists_install [simp]:
  "path_exists w' (installDependencies w i l s) i' m = path_exists w' s i' m"
  by (simp add: path_exists_def split: place.splits)

lemma path_exists_installer [simp]:
  "path_exists (w\<lparr>run := r, json_error := j\<rparr>) s i m = path_exists w s i m"
  by (simp add: path_exists_def split: place.splits)





lemma same_store_refl [simp]: "same_store s s"
  by (simp add: same_store_def)









section \<open>Properties: the logs\<close>

lemma sublist_trim: "sublist (trim s) s"
proof -
  have "suffix (dropWhile isSpace (rev (dropWhile isSpace s))) (rev (dropWhile isSpace s))"
    by (rule suffix_dropWhile)
  then have "prefix (trim s) (dropWhile isSpace s)"
    by (simp add: trim_def suffix_to_prefix)
  then have "sublist (trim s) (dropWhile isSpace s)" by (rule prefix_imp_sublist)
  moreover have "sublist (dropWhile isSpace s) s"
    by (rule suffix_imp_sublist) (rule suffix_dropWhile)
  ultimately show ?thesis by (rule sublist_order.order.trans)
qed












section \<open>Properties: dependency inference\<close>

lemma split_on_cases:
  obtains y ys where "split_on d s = y # ys"
  by (cases "split_on d s"; cases s) (auto split: if_splits list.splits)

lemma split_on_first_prefix: "split_on d s = y # ys \<Longrightarrow> prefix y s"
proof (induction s arbitrary: y ys)
  case Nil
  then show ?case by simp
next
  case (Cons c s)
  obtain y' ys' where y': "split_on d s = y' # ys'" by (rule split_on_cases)
  with Cons show ?case by (auto split: if_splits)
qed

lemma split_on_sublist: "l \<in> set (split_on d s) \<Longrightarrow> sublist l s"
proof (induction s arbitrary: l)
  case Nil
  then show ?case by simp
next
  case (Cons c s)
  obtain y ys where y: "split_on d s = y # ys" by (rule split_on_cases)
  show ?case
  proof (cases "c = d")
    case True
    with Cons show ?thesis by (auto simp: sublist_Cons_right)
  next
    case False
    with Cons.prems y have "l = c # y \<or> l \<in> set ys" by auto
    then show ?thesis
    proof
      assume "l = c # y"
      with split_on_first_prefix[OF y] show ?thesis by (simp add: sublist_Cons_right)
    next
      assume "l \<in> set ys"
      with y have "l \<in> set (split_on d s)" by simp
      with Cons.IH show ?thesis by (simp add: sublist_Cons_right)
    qed
  qed
qed

lemma split_on_keeps_prefix:
  "prefix m s \<Longrightarrow> d \<notin> set m \<Longrightarrow> \<exists>y ys. split_on d s = y # ys \<and> prefix m y"
proof (induction s arbitrary: m)
  case Nil
  then show ?case by simp
next
  case (Cons c s)
  show ?case
  proof (cases m)
    case Nil
    obtain y ys where "split_on d (c # s) = y # ys" by (rule split_on_cases)
    with Nil show ?thesis by simp
  next
    case (Cons x m')
    with Cons.prems have x: "x = c" "prefix m' s" "c \<noteq> d" "d \<notin> set m'" by auto
    from Cons.IH[OF x(2) x(4)] obtain y ys where "split_on d s = y # ys" "prefix m' y" by blast
    with x Cons show ?thesis by simp
  qed
qed

lemma split_on_keeps_sublist:
  "sublist m s \<Longrightarrow> d \<notin> set m \<Longrightarrow> \<exists>l\<in>set (split_on d s). sublist m l"
proof (induction s)
  case Nil
  then show ?case by simp
next
  case (Cons c s)
  from Cons.prems(1) consider "prefix m (c # s)" | "sublist m s"
    by (auto simp: sublist_Cons_right)
  then show ?case
  proof cases
    case 1
    from split_on_keeps_prefix[OF 1 Cons.prems(2)] show ?thesis
      by (auto intro: prefix_imp_sublist)
  next
    case 2
    from Cons.IH[OF 2 Cons.prems(2)] obtain l where l: "l \<in> set (split_on d s)" "sublist m l"
      by blast
    obtain y ys where y: "split_on d s = y # ys" by (rule split_on_cases)
    show ?thesis
    proof (cases "c = d")
      case True
      with l show ?thesis by auto
    next
      case False
      from l y have "l = y \<or> l \<in> set ys" by auto
      then show ?thesis
      proof
        assume "l = y"
        with l(2) have "sublist m (c # y)" by (simp add: sublist_Cons_right)
        with False y show ?thesis by auto
      next
        assume "l \<in> set ys"
        with False y l(2) show ?thesis by auto
      qed
    qed
  qed
qed

lemma sublist_dropWhile_keep:
  "sublist m l \<Longrightarrow> m \<noteq> [] \<Longrightarrow> \<not> P (hd m) \<Longrightarrow> sublist m (dropWhile P l)"
proof (induction l)
  case Nil
  then show ?case by simp
next
  case (Cons x l)
  show ?case
  proof (cases "P x")
    case False
    with Cons.prems show ?thesis by simp
  next
    case True
    from Cons.prems(1) have "prefix m (x # l) \<or> sublist m l" by (simp add: sublist_Cons_right)
    moreover have "\<not> prefix m (x # l)"
      using Cons.prems(2,3) True by (cases m) auto
    ultimately have "sublist m l" by blast
    with Cons True show ?thesis by simp
  qed
qed

lemma sublist_trim_keep:
  assumes "sublist m l" and "m \<noteq> []" and "\<not> isSpace (hd m)" and "\<not> isSpace (last m)"
  shows "sublist m (trim l)"
proof -
  have 1: "sublist m (dropWhile isSpace l)"
    using assms(1-3) by (rule sublist_dropWhile_keep)
  have "sublist (rev m) (dropWhile isSpace (rev (dropWhile isSpace l)))"
    using 1 assms(2,4) by (intro sublist_dropWhile_keep) (simp_all add: hd_rev)
  then show ?thesis by (simp add: trim_def sublist_rev_left)
qed

lemma toLowerCase_sublist: "sublist m s \<Longrightarrow> sublist (toLowerCase m) (toLowerCase s)"
  unfolding toLowerCase_def by (rule map_mono_sublist)

lemma sublist_join: "x \<in> set xs \<Longrightarrow> sublist x (join d xs)"
proof (induction d xs rule: join.induct)
  case (3 d x' y ys)
  then show ?case
    by (auto simp: sublist_append intro: sublist_order.order.trans)
qed simp_all

lemma set_add_if: "set (add_if c p ps) = set ps \<union> (if c then {p} else {})"
  by (auto simp: add_if_def add_pin_def)

lemma set_python_line_pins:
  "set (python_line_pins line pins0) = set pins0 \<union> set (python_line_pins line [])"
  by (simp add: python_line_pins_def Let_def set_add_if Un_assoc)

lemma set_python_lines:
  "set (foldl (\<lambda>pins line. python_line_pins line pins) pins0 ls)
     = set pins0 \<union> (\<Union>l\<in>set ls. set (python_line_pins l []))"
proof (induction ls arbitrary: pins0)
  case Nil
  show ?case by simp
next
  case (Cons l ls)
  show ?case
    using set_python_line_pins[of l pins0] by (simp add: Cons Un_assoc)
qed

lemma set_python_file_pins:
  "set (python_file_pins f pins0)
     = set pins0 \<union> (\<Union>l\<in>set (split_on nl (content f)). set (python_line_pins l []))"
  by (simp add: python_file_pins_def set_python_lines)

lemma set_python_files:
  "set (foldl (\<lambda>pins f. python_file_pins f pins) pins0 fs)
     = set pins0 \<union> (\<Union>f\<in>set fs. \<Union>l\<in>set (split_on nl (content f)). set (python_line_pins l []))"
proof (induction fs arbitrary: pins0)
  case Nil
  show ?case by simp
next
  case (Cons f fs)
  show ?case
    by (simp add: Cons set_python_file_pins Un_assoc)
qed

text \<open>The pins of a line, by the marker that brings each.\<close>

lemma python_line_pins_marker:
  assumes "(ms, pin) \<in> set marker_table" and "m \<in> set ms"
    and "str_includes (toLowerCase (trim line)) m"
  shows "pin \<in> set (python_line_pins line [])"
proof -
  have s: "\<And>x c p. x \<in> (if c then {p} else {}) \<longleftrightarrow> c \<and> x = p" by simp
  from assms(1,2) have "(m, pin) \<in> set (concat (map (\<lambda>(ms, pin). map (\<lambda>m. (m, pin)) ms) marker_table))"
    by auto
  then have "(m, pin) \<in> {(''discord.py'', ''discord.py>=2.3.0''), (''import discord'', ''discord.py>=2.3.0''),
       (''from discord'', ''discord.py>=2.3.0''), (''aiohttp'', ''aiohttp>=3.8.0''),
       (''requests'', ''requests>=2.28.0''), (''dotenv'', ''python-dotenv>=0.19.0''),
       (''python-dotenv'', ''python-dotenv>=0.19.0''), (''pymysql'', ''PyMySQL>=1.0.0''),
       (''mysql'', ''PyMySQL>=1.0.0''), (''psycopg'', ''psycopg2-binary>=2.9.0''),
       (''postgres'', ''psycopg2-binary>=2.9.0'')}"
    by (simp add: marker_table_def)
  with assms(3) show ?thesis
    unfolding python_line_pins_def Let_def set_add_if Un_iff s
    by (elim insertE emptyE) (simp_all del: str_includes.simps startsWith.simps)
qed

lemma python_line_pins_quiet:
  assumes "\<forall>m\<in>set python_markers. \<not> str_includes (toLowerCase (trim line)) m"
  shows "python_line_pins line pins = pins"
  using assms
  by (simp add: python_markers_def python_line_pins_def Let_def add_if_def)

lemma marker_shape:
  assumes "(ms, pin) \<in> set marker_table" and "m \<in> set ms"
  shows "m \<noteq> []" and "\<not> isSpace (hd m)" and "\<not> isSpace (last m)" and "nl \<notin> set m"
    and "toLowerCase m = m"
  using assms by (auto simp: marker_table_def isSpace_def toLowerChar_fix)

lemma marker_reaches_line:
  assumes t: "(ms, pin) \<in> set marker_table" "m \<in> set ms" and c: "str_includes c m"
  shows "\<exists>l\<in>set (split_on nl c). str_includes (toLowerCase (trim l)) m"
proof -
  note sh = marker_shape[OF t]
  from c have "sublist m c" by (simp add: str_includes_sublist)
  from split_on_keeps_sublist[OF this sh(4)] obtain l where l: "l \<in> set (split_on nl c)" "sublist m l"
    by blast
  from sublist_trim_keep[OF l(2) sh(1-3)] have "sublist m (trim l)" .
  from toLowerCase_sublist[OF this] have "sublist m (toLowerCase (trim l))" by (simp add: sh(5))
  with l(1) show ?thesis by (auto simp: str_includes_sublist)
qed

lemma python_imports_marker:
  assumes t: "(ms, pin) \<in> set marker_table" "m \<in> set ms"
    and f: "f \<in> set files" "endsWith (filename f) ''.py''" "str_includes (content f) m"
  shows "pin \<in> set (python_imports files)"
proof -
  from marker_reaches_line[OF t f(3)] obtain l where
    l: "l \<in> set (split_on nl (content f))" "str_includes (toLowerCase (trim l)) m" by blast
  from python_line_pins_marker[OF t l(2)] have "pin \<in> set (python_line_pins l [])" .
  with l(1) f(1,2) have
    "pin \<in> set (foldl (\<lambda>pins f. python_file_pins f pins) [] (filter (\<lambda>f. endsWith (filename f) ''.py'') files))"
    unfolding set_python_files by auto
  then show ?thesis
    by (auto simp: python_imports_def Let_def)
qed

lemma python_file_pins_quiet:
  assumes "\<forall>m\<in>set python_markers. \<not> str_includes (toLowerCase (content f)) m"
  shows "python_file_pins f pins = pins"
proof -
  have q: "\<And>l. l \<in> set (split_on nl (content f)) \<Longrightarrow> python_line_pins l pins = pins"
  proof (rule python_line_pins_quiet, rule ballI)
    fix l m assume l: "l \<in> set (split_on nl (content f))" and m: "m \<in> set python_markers"
    have "sublist (trim l) (content f)"
      using sublist_trim[of l] split_on_sublist[OF l] by (rule sublist_order.order.trans)
    then have s: "sublist (toLowerCase (trim l)) (toLowerCase (content f))"
      by (rule toLowerCase_sublist)
    show "\<not> str_includes (toLowerCase (trim l)) m"
    proof
      assume "str_includes (toLowerCase (trim l)) m"
      then have "sublist m (toLowerCase (content f))"
        using s by (auto simp: str_includes_sublist intro: sublist_order.order.trans)
      with assms m show False by (simp add: str_includes_sublist)
    qed
  qed
  have "\<And>ls. set ls \<subseteq> set (split_on nl (content f))
          \<Longrightarrow> foldl (\<lambda>pins line. python_line_pins line pins) pins ls = pins"
  proof -
    fix ls show "set ls \<subseteq> set (split_on nl (content f))
          \<Longrightarrow> foldl (\<lambda>pins line. python_line_pins line pins) pins ls = pins"
      by (induction ls) (simp_all add: q)
  qed
  then show ?thesis by (simp add: python_file_pins_def)
qed

lemma python_imports_baseline:
  assumes "list_ex (\<lambda>f. endsWith (filename f) ''.py'') files"
    and "\<forall>f\<in>set files. endsWith (filename f) ''.py'' \<longrightarrow>
           (\<forall>m\<in>set python_markers. \<not> str_includes (toLowerCase (content f)) m)"
  shows "python_imports files = [''discord.py>=2.3.0'']"
proof -
  let ?py = "filter (\<lambda>f. endsWith (filename f) ''.py'') files"
  have "\<And>fs. set fs \<subseteq> set ?py \<Longrightarrow> foldl (\<lambda>pins f. python_file_pins f pins) [] fs = []"
  proof -
    fix fs show "set fs \<subseteq> set ?py \<Longrightarrow> foldl (\<lambda>pins f. python_file_pins f pins) [] fs = []"
    proof (induction fs)
      case Nil
      show ?case by simp
    next
      case (Cons a fs)
      then have "\<forall>m\<in>set python_markers. \<not> str_includes (toLowerCase (content a)) m"
        using assms(2) by auto
      from python_file_pins_quiet[OF this] Cons show ?case by simp
    qed
  qed
  then have "foldl (\<lambda>pins f. python_file_pins f pins) [] ?py = []" by simp
  moreover have "?py \<noteq> []" using assms(1) by (auto simp: list_ex_iff filter_empty_conv)
  ultimately show ?thesis by (simp add: python_imports_def Let_def)
qed

lemma python_imports_none:
  "\<not> list_ex (\<lambda>f. endsWith (filename f) ''.py'') files \<Longrightarrow> python_imports files = []"
  by (simp add: python_imports_def Let_def list_ex_iff filter_empty_conv[THEN iffD2])

lemma node_file_deps_quiet:
  assumes "\<forall>m\<in>set node_markers. \<not> str_includes (toLowerCase (content f)) m"
  shows "node_file_deps f deps = deps"
  using assms
  by (simp add: node_markers_def node_file_deps_def Let_def dep_if_def)

lemma node_dependencies_baseline:
  assumes "list_ex (\<lambda>f. endsWith (filename f) ''.js'' \<or> endsWith (filename f) ''.ts'') files"
    and "\<forall>f\<in>set files. endsWith (filename f) ''.js'' \<or> endsWith (filename f) ''.ts'' \<longrightarrow>
           (\<forall>m\<in>set node_markers. \<not> str_includes (toLowerCase (content f)) m)"
  shows "node_dependencies files = [(''discord.js'', ''^14.14.1'')]"
proof -
  let ?js = "filter (\<lambda>f. endsWith (filename f) ''.js'' \<or> endsWith (filename f) ''.ts'') files"
  have "\<And>fs. set fs \<subseteq> set ?js \<Longrightarrow> foldl (\<lambda>deps f. node_file_deps f deps) [] fs = []"
  proof -
    fix fs show "set fs \<subseteq> set ?js \<Longrightarrow> foldl (\<lambda>deps f. node_file_deps f deps) [] fs = []"
    proof (induction fs)
      case Nil
      show ?case by simp
    next
      case (Cons a fs)
      then have "\<forall>m\<in>set node_markers. \<not> str_includes (toLowerCase (content a)) m"
        using assms(2) by auto
      from node_file_deps_quiet[OF this] Cons show ?case by simp
    qed
  qed
  then have "foldl (\<lambda>deps f. node_file_deps f deps) [] ?js = []" by simp
  moreover have "?js \<noteq> []" using assms(1) by (auto simp: list_ex_iff filter_empty_conv)
  ultimately show ?thesis by (simp add: node_dependencies_def Let_def)
qed

lemma node_dependencies_none:
  "\<not> list_ex (\<lambda>f. endsWith (filename f) ''.js'' \<or> endsWith (filename f) ''.ts'') files
     \<Longrightarrow> node_dependencies files = []"
  by (simp add: node_dependencies_def Let_def list_ex_iff filter_empty_conv[THEN iffD2])

lemma autoCreate_python_writes:
  assumes "workspace s botId = Some d" and "d ''requirements.txt'' = None"
    and "write_error w botId ''requirements.txt'' = None" and "python_imports files \<noteq> []"
  shows "read_file (autoCreateDependencies w botId ''python'' files s) botId ''requirements.txt''
           = Some (join [nl] (python_imports files))"
  using assms
  by (simp add: autoCreateDependencies_def file_exists_def write_manifest_def write_file_def
        read_file_def Let_def)

lemma autoCreate_node_writes:
  assumes "workspace s botId = Some d" and "d ''package.json'' = None"
    and "write_error w botId ''package.json'' = None" and "node_dependencies files \<noteq> []"
  shows "read_file (autoCreateDependencies w botId ''nodejs'' files s) botId ''package.json''
           = Some (package_json (node_dependencies files))"
  using assms
  by (simp add: autoCreateDependencies_def file_exists_def write_manifest_def write_file_def
        read_file_def Let_def)

text \<open>
  Claim C7, as amended. With the manifest of the runtime already in the workspace
  nothing is inferred or written. Otherwise (the directory is there and the manifest can
  be written): a single Python file that contains a marker of the table yields a manifest
  that is the inferred pins joined by line feeds and contains the pin of that marker;
  files of the runtime in which the code finds none of its markers (for Python the
  markers of the table and also \<open>asyncio\<close>, \<open>json\<close> and \<open>sqlite3\<close>) yield the baseline
  pin of the chat library alone; and without a file of the runtime nothing is written.
\<close>

theorem dependency_inference:
  "(file_exists s botId ''requirements.txt'' \<longrightarrow>
      autoCreateDependencies w botId ''python'' files s = s)
   \<and> (file_exists s botId ''package.json'' \<longrightarrow>
      autoCreateDependencies w botId ''nodejs'' files s = s)
   \<and> ((ms, pin) \<in> set marker_table \<and> m \<in> set ms
        \<and> endsWith (filename f) ''.py'' \<and> str_includes (content f) m
        \<and> workspace s botId = Some d \<and> d ''requirements.txt'' = None
        \<and> write_error w botId ''requirements.txt'' = None \<longrightarrow>
          read_file (autoCreateDependencies w botId ''python'' [f] s) botId ''requirements.txt''
            = Some (join [nl] (python_imports [f]))
          \<and> pin \<in> set (python_imports [f])
          \<and> str_includes (join [nl] (python_imports [f])) pin)
   \<and> (list_ex (\<lambda>f. endsWith (filename f) ''.py'') files
        \<and> (\<forall>f\<in>set files. endsWith (filename f) ''.py'' \<longrightarrow>
              (\<forall>m\<in>set python_markers. \<not> str_includes (toLowerCase (content f)) m))
        \<and> workspace s botId = Some d \<and> d ''requirements.txt'' = None
        \<and> write_error w botId ''requirements.txt'' = None \<longrightarrow>
          read_file (autoCreateDependencies w botId ''python'' files s) botId ''requirements.txt''
            = Some ''discord.py>=2.3.0'')
   \<and> (list_ex (\<lambda>f. endsWith (filename f) ''.js'' \<or> endsWith (filename f) ''.ts'') files
        \<and> (\<forall>f\<in>set files. endsWith (filename f) ''.js'' \<or> endsWith (filename f) ''.ts'' \<longrightarrow>
              (\<forall>m\<in>set node_markers. \<not> str_includes (toLowerCase (content f)) m))
        \<and> workspace s botId = Some d \<and> d ''package.json'' = None
        \<and> write_error w botId ''package.json'' = None \<longrightarrow>
          read_file (autoCreateDependencies w botId ''nodejs'' files s) botId ''package.json''
            = Some (package_json [(''discord.js'', ''^14.14.1'')]))
   \<and> (\<not> list_ex (\<lambda>f. endsWith (filename f) ''.py'') files \<longrightarrow>
        autoCreateDependencies w botId ''python'' files s = s)
   \<and> (\<not> list_ex (\<lambda>f. endsWith (filename f) ''.js'' \<or> endsWith (filename f) ''.ts'') files \<longrightarrow>
        autoCreateDependencies w botId ''nodejs'' files s = s)"
proof (intro conjI impI)
  assume "file_exists s botId ''requirements.txt''"
  then show "autoCreateDependencies w botId ''python'' files s = s"
    by (simp add: autoCreateDependencies_def)
next
  assume "file_exists s botId ''package.json''"
  then show "autoCreateDependencies w botId ''nodejs'' files s = s"
    by (simp add: autoCreateDependencies_def)
next
  assume a: "(ms, pin) \<in> set marker_table \<and> m \<in> set ms
        \<and> endsWith (filename f) ''.py'' \<and> str_includes (content f) m
        \<and> workspace s botId = Some d \<and> d ''requirements.txt'' = None
        \<and> write_error w botId ''requirements.txt'' = None"
  then have p: "pin \<in> set (python_imports [f])"
    using python_imports_marker[of ms pin m f "[f]"] by simp
  then have ne: "python_imports [f] \<noteq> []" by auto
  show "read_file (autoCreateDependencies w botId ''python'' [f] s) botId ''requirements.txt''
            = Some (join [nl] (python_imports [f]))"
    using a ne autoCreate_python_writes[of s botId d w "[f]"] by blast
  show "pin \<in> set (python_imports [f])" by (rule p)
  show "str_includes (join [nl] (python_imports [f])) pin"
    using sublist_join[OF p] by (simp add: str_includes_sublist)
next
  assume a: "list_ex (\<lambda>f. endsWith (filename f) ''.py'') files
        \<and> (\<forall>f\<in>set files. endsWith (filename f) ''.py'' \<longrightarrow>
              (\<forall>m\<in>set python_markers. \<not> str_includes (toLowerCase (content f)) m))
        \<and> workspace s botId = Some d \<and> d ''requirements.txt'' = None
        \<and> write_error w botId ''requirements.txt'' = None"
  then have "python_imports files = [''discord.py>=2.3.0'']"
    using python_imports_baseline[of files] by blast
  with a autoCreate_python_writes[of s botId d w files]
  show "read_file (autoCreateDependencies w botId ''python'' files s) botId ''requirements.txt''
            = Some ''discord.py>=2.3.0''"
    by simp
next
  assume a: "list_ex (\<lambda>f. endsWith (filename f) ''.js'' \<or> endsWith (filename f) ''.ts'') files
        \<and> (\<forall>f\<in>set files. endsWith (filename f) ''.js'' \<or> endsWith (filename f) ''.ts'' \<longrightarrow>
              (\<forall>m\<in>set node_markers. \<not> str_includes (toLowerCase (content f)) m))
        \<and> workspace s botId = Some d \<and> d ''package.json'' = None
        \<and> write_error w botId ''package.json'' = None"
  then have "node_dependencies files = [(''discord.js'', ''^14.14.1'')]"
    using node_dependencies_baseline[of files] by blast
  with a autoCreate_node_writes[of s botId d w files]
  show "read_file (autoCreateDependencies w botId ''nodejs'' files s) botId ''package.json''
            = Some (package_json [(''discord.js'', ''^14.14.1'')])"
    by simp
next
  assume "\<not> list_ex (\<lambda>f. endsWith (filename f) ''.py'') files"
  then show "autoCreateDependencies w botId ''python'' files s = s"
    by (simp add: autoCreateDependencies_def python_imports_none)
next
  assume "\<not> list_ex (\<lambda>f. endsWith (filename f) ''.js'' \<or> endsWith (filename f) ''.ts'') files"
  then show "autoCreateDependencies w botId ''nodejs'' files s = s"
    by (simp add: autoCreateDependencies_def node_dependencies_none)
qed

lemma python_imports_json:
  "python_imports [\<lparr>filename = ''bot.py'', content = ''import json''\<rparr>] = [''json5>=0.9.0'']"
  by (simp add: python_imports_def python_file_pins_def python_line_pins_def Let_def endsWith_def
        trim_def isSpace_def toLowerChar_fix add_if_def add_pin_def)

text \<open>
  Claim C7 as stated fails: the one Python file \<open>import json\<close> contains no marker of the
  table, and its manifest is the pin \<open>json5>=0.9.0\<close> without the baseline pin.
\<close>

theorem baseline_pin_counterexample:
  "list_all (\<lambda>(ms, pin). list_all (\<lambda>m. \<not> str_includes ''import json'' m) ms) marker_table
   \<and> read_file
        (autoCreateDependencies demo_world ''b1'' ''python''
           [\<lparr>filename = ''bot.py'', content = ''import json''\<rparr>]
           (write_file ''b1'' ''bot.py'' ''import json'' (mkdir ''b1'' (demo_engine []))))
        ''b1'' ''requirements.txt''
       = Some ''json5>=0.9.0''
   \<and> \<not> str_includes ''json5>=0.9.0'' ''discord.py>=2.3.0''"
proof -
  have 1: "list_all (\<lambda>(ms, pin). list_all (\<lambda>m. \<not> str_includes ''import json'' m) ms) marker_table"
    by (simp add: marker_table_def)
  let ?s = "write_file ''b1'' ''bot.py'' ''import json'' (mkdir ''b1'' (demo_engine []))"
  have ws: "workspace ?s ''b1'' = Some [''bot.py'' \<mapsto> ''import json'']"
    by (simp add: write_file_def mkdir_def demo_engine_def)
  have 2: "read_file (autoCreateDependencies demo_world ''b1'' ''python''
             [\<lparr>filename = ''bot.py'', content = ''import json''\<rparr>] ?s) ''b1'' ''requirements.txt''
           = Some ''json5>=0.9.0''"
    using autoCreate_python_writes[OF ws, of demo_world "[\<lparr>filename = ''bot.py'', content = ''import json''\<rparr>]"]
    by (simp add: python_imports_json demo_facts)
  have 3: "\<not> str_includes ''json5>=0.9.0'' ''discord.py>=2.3.0''" by simp
  from 1 2 3 show ?thesis by blast
qed

theorem dependency_inference_witness:
  "autoCreateDependencies demo_world ''b1'' ''python'' pass_files running_engine = running_engine
   \<and> autoCreateDependencies demo_world ''b1'' ''nodejs'' [\<lparr>filename = ''bot.js'', content = ''x''\<rparr>]
        (write_file ''b1'' ''package.json'' ''{}'' (mkdir ''b1'' (demo_engine [])))
       = write_file ''b1'' ''package.json'' ''{}'' (mkdir ''b1'' (demo_engine []))
   \<and> ''aiohttp>=3.8.0'' \<in> set (python_imports [\<lparr>filename = ''bot.py'', content = ''import aiohttp''\<rparr>])
   \<and> read_file (autoCreateDependencies demo_world ''b1'' ''python''
                  [\<lparr>filename = ''bot.py'', content = ''import aiohttp''\<rparr>] (mkdir ''b1'' (demo_engine [])))
         ''b1'' ''requirements.txt''
       = Some (join [nl] (python_imports [\<lparr>filename = ''bot.py'', content = ''import aiohttp''\<rparr>]))
   \<and> read_file (autoCreateDependencies demo_world ''b1'' ''python'' pass_files (mkdir ''b1'' (demo_engine [])))
         ''b1'' ''requirements.txt''
       = Some ''discord.py>=2.3.0''
   \<and> read_file (autoCreateDependencies demo_world ''b1'' ''nodejs''
                  [\<lparr>filename = ''bot.js'', content = ''x''\<rparr>] (mkdir ''b1'' (demo_engine [])))
         ''b1'' ''package.json''
       = Some (package_json [(''discord.js'', ''^14.14.1'')])
   \<and> autoCreateDependencies demo_world ''b1'' ''python'' [\<lparr>filename = ''notes.txt'', content = ''hi''\<rparr>]
        (mkdir ''b1'' (demo_engine [])) = mkdir ''b1'' (demo_engine [])
   \<and> autoCreateDependencies demo_world ''b1'' ''nodejs'' [\<lparr>filename = ''notes.txt'', content = ''hi''\<rparr>]
        (mkdir ''b1'' (demo_engine [])) = mkdir ''b1'' (demo_engine [])"
proof -
  let ?s = "mkdir ''b1'' (demo_engine [])"
  let ?sj = "write_file ''b1'' ''package.json'' ''{}'' ?s"
  let ?aio = "\<lparr>filename = ''bot.py'', content = ''import aiohttp''\<rparr>"
  let ?js = "[\<lparr>filename = ''bot.js'', content = ''x''\<rparr>]"
  let ?txt = "[\<lparr>filename = ''notes.txt'', content = ''hi''\<rparr>]"
  have ws: "workspace ?s ''b1'' = Some Map.empty"
    by (simp add: mkdir_def demo_engine_def)
  have e1: "file_exists running_engine ''b1'' ''requirements.txt''"
    by (simp add: file_exists_def running_engine_def)
  have e2: "file_exists ?sj ''b1'' ''package.json''"
    by (simp add: file_exists_def write_file_def mkdir_def demo_engine_def)
  have q1: "\<forall>f\<in>set pass_files. endsWith (filename f) ''.py'' \<longrightarrow>
              (\<forall>m\<in>set python_markers. \<not> str_includes (toLowerCase (content f)) m)"
    by (simp add: pass_files_def python_markers_def toLowerChar_fix)
  have q2: "\<forall>f\<in>set ?js. endsWith (filename f) ''.js'' \<or> endsWith (filename f) ''.ts'' \<longrightarrow>
              (\<forall>m\<in>set node_markers. \<not> str_includes (toLowerCase (content f)) m)"
    by (simp add: node_markers_def toLowerChar_fix)
  have r1: "list_ex (\<lambda>f. endsWith (filename f) ''.py'') pass_files"
    by (simp add: pass_files_def endsWith_def)
  have r2: "list_ex (\<lambda>f. endsWith (filename f) ''.js'' \<or> endsWith (filename f) ''.ts'') ?js"
    by (simp add: endsWith_def)
  have n1: "\<not> list_ex (\<lambda>f. endsWith (filename f) ''.py'') ?txt"
    by (simp add: endsWith_def)
  have n2: "\<not> list_ex (\<lambda>f. endsWith (filename f) ''.js'' \<or> endsWith (filename f) ''.ts'') ?txt"
    by (simp add: endsWith_def)
  have t: "([''aiohttp''], ''aiohttp>=3.8.0'') \<in> set marker_table"
    by (simp add: marker_table_def)
  have i: "endsWith (filename ?aio) ''.py''" "str_includes (content ?aio) ''aiohttp''"
    by (simp_all add: endsWith_def)
  from dependency_inference[where s = running_engine and botId = "''b1''" and w = demo_world
         and files = pass_files] e1
  have 1: "autoCreateDependencies demo_world ''b1'' ''python'' pass_files running_engine = running_engine"
    by blast
  from dependency_inference[where s = ?sj and botId = "''b1''" and w = demo_world and files = ?js] e2
  have 2: "autoCreateDependencies demo_world ''b1'' ''nodejs'' ?js ?sj = ?sj"
    by blast
  from dependency_inference[where s = ?s and botId = "''b1''" and w = demo_world
         and ms = "[''aiohttp'']" and pin = "''aiohttp>=3.8.0''" and m = "''aiohttp''" and f = ?aio
         and d = Map.empty] t i ws
  have 3: "''aiohttp>=3.8.0'' \<in> set (python_imports [?aio])
       \<and> read_file (autoCreateDependencies demo_world ''b1'' ''python'' [?aio] ?s) ''b1'' ''requirements.txt''
           = Some (join [nl] (python_imports [?aio]))"
    by (simp add: demo_facts)
  from dependency_inference[where s = ?s and botId = "''b1''" and w = demo_world
         and files = pass_files and d = Map.empty] r1 q1 ws
  have 4: "read_file (autoCreateDependencies demo_world ''b1'' ''python'' pass_files ?s) ''b1'' ''requirements.txt''
       = Some ''discord.py>=2.3.0''"
    by (simp add: demo_facts)
  from dependency_inference[where s = ?s and botId = "''b1''" and w = demo_world
         and files = ?js and d = Map.empty] r2 q2 ws
  have 5: "read_file (autoCreateDependencies demo_world ''b1'' ''nodejs'' ?js ?s) ''b1'' ''package.json''
       = Some (package_json [(''discord.js'', ''^14.14.1'')])"
    by (simp add: demo_facts)
  from dependency_inference[where s = ?s and botId = "''b1''" and w = demo_world and files = ?txt] n1 n2
  have 6: "autoCreateDependencies demo_world ''b1'' ''python'' ?txt ?s = ?s
       \<and> autoCreateDependencies demo_world ''b1'' ''nodejs'' ?txt ?s = ?s"
    by blast
  from 1 2 3 4 5 6 show ?thesis by blast
qed

section \<open>Properties: the substitution of the credential\<close>

lemma match_items_lit_s:
  "match_items False (lit w) s = (if startsWith s w then Some (length w) else None)"
proof (induction w arbitrary: s)
  case Nil
  show ?case by (simp add: lit_def)
next
  case (Cons c w)
  show ?case
  proof (cases s)
    case Nil
    then show ?thesis by (simp add: lit_def)
  next
    case (Cons x s')
    with Cons.IH[of s'] show ?thesis by (simp add: lit_def)
  qed
qed

lemma match_at_placeholder:
  "match_at placeholder_pattern s =
     (if startsWith s ''YOUR_BOT_TOKEN'' then Some 14
      else if startsWith s ([dq] @ ''YOUR_BOT_TOKEN'' @ [dq]) then Some 16
      else if startsWith s ([sq] @ ''YOUR_BOT_TOKEN'' @ [sq]) then Some 16
      else None)"
  by (simp add: match_at_def placeholder_pattern_def match_items_lit_s del: startsWith.simps)

lemma match_at_process_env:
  "match_at process_env_pattern s =
     (if startsWith s ''process.env.DISCORD_TOKEN'' then Some 25
      else if startsWith s ''process.env.BOT_TOKEN'' then Some 21
      else if startsWith s ''process.env.TOKEN'' then Some 17
      else None)"
  by (simp add: match_at_def process_env_pattern_def match_items_lit_s del: startsWith.simps)

lemma match_alts_prefix_s:
  "match_alts False as s = Some n \<Longrightarrow> list_ex (\<lambda>a. startsWith s (lit_prefix a)) as"
proof (induction as)
  case Nil
  then show ?case by simp
next
  case (Cons a as)
  then show ?case
    by (cases "match_items False a s") (auto dest: match_items_prefix_s)
qed

lemma match_at_os_environ: "match_at os_environ_pattern s = Some n \<Longrightarrow> startsWith s ''os.environ''"
  using match_alts_prefix_s[of "alternatives os_environ_pattern" s n]
  by (auto simp: match_at_def os_environ_pattern_def lit_prefix_append_lit startsWith_prefix
        prefix_def)

lemma match_at_os_getenv: "match_at os_getenv_pattern s = Some n \<Longrightarrow> startsWith s ''os.getenv(''"
  using match_alts_prefix_s[of "alternatives os_getenv_pattern" s n]
  by (auto simp: match_at_def os_getenv_pattern_def lit_prefix_append_lit)

lemma startsWith_includes: "startsWith s p \<Longrightarrow> str_includes s p"
  by (cases s) auto

lemma str_includes_tail: "str_includes s p \<Longrightarrow> str_includes (c # s) p"
  by simp

text \<open>A text in which no match can start is left as it is.\<close>

lemma replace_from_id:
  assumes "\<And>t n. match_at r t = Some n \<Longrightarrow> startsWith t p" and "p \<noteq> []"
    and "\<not> str_includes s p"
  shows "replace_from r repl pre s = s"
  using assms(3)
proof (induction s arbitrary: pre)
  case Nil
  have "match_at r [] = None"
    using assms(1)[of "[]"] assms(2) by (cases "match_at r []"; cases p) auto
  then show ?case by simp
next
  case (Cons c s)
  have "match_at r (c # s) = None"
  proof (cases "match_at r (c # s)")
    case (Some n)
    from assms(1)[OF Some] Cons.prems show ?thesis by simp
  qed simp
  moreover have "\<not> str_includes s p" using Cons.prems by simp
  ultimately show ?case using Cons.IH by simp
qed

lemma match_at_process_env_prefix:
  "match_at process_env_pattern s = Some n \<Longrightarrow> startsWith s ''process.env.''"
  using match_alts_prefix_s[of "alternatives process_env_pattern" s n]
  by (auto simp: match_at_def process_env_pattern_def startsWith_prefix prefix_def)

lemma later_passes_id:
  assumes "\<not> str_includes s ''process.env.''" and "\<not> str_includes s ''os.environ''"
    and "\<not> str_includes s ''os.getenv(''"
  shows "replace_all os_getenv_pattern repl
           (replace_all os_environ_pattern repl (replace_all process_env_pattern repl s)) = s"
proof -
  have 1: "replace_all process_env_pattern repl s = s"
    unfolding replace_all_def
    by (rule replace_from_id[where p = "''process.env.''"]) (auto dest: match_at_process_env_prefix simp: assms)
  have 2: "replace_all os_environ_pattern repl s = s"
    unfolding replace_all_def
    by (rule replace_from_id[where p = "''os.environ''"]) (auto dest: match_at_os_environ simp: assms)
  have 3: "replace_all os_getenv_pattern repl s = s"
    unfolding replace_all_def
    by (rule replace_from_id[where p = "''os.getenv(''"]) (auto dest: match_at_os_getenv simp: assms)
  show ?thesis by (simp add: 1 2 3)
qed

lemma first_pass_dollar:
  "replace_all placeholder_pattern (quoted ''a$$b'') (content login_file)
     = ''client.run('' @ [dq] @ ''a$b'' @ [dq] @ '')''"
  by (simp add: replace_all_def match_at_placeholder quoted_def login_file_def)

lemma substitute_dollar:
  "substitute ''a$$b'' (content login_file) = ''client.run('' @ [dq] @ ''a$b'' @ [dq] @ '')''"
  unfolding substitute_def first_pass_dollar
  by (rule later_passes_id) simp_all

lemma expand_plain: "CHR ''$'' \<notin> set repl \<Longrightarrow> expand repl m l r = repl"
  by (induction repl m l r rule: expand.induct) auto

lemma match_items_le: "match_items i a s = Some n \<Longrightarrow> n \<le> length s"
  by (induction i a s arbitrary: n rule: match_items.induct)
     (auto split: if_splits option.splits)

lemma match_alts_le: "match_alts i as s = Some n \<Longrightarrow> n \<le> length s"
  by (induction as) (auto split: option.splits dest: match_items_le)

lemma match_at_le: "match_at r s = Some n \<Longrightarrow> n \<le> length s"
  unfolding match_at_def by (rule match_alts_le)

lemma match_items_One_pos: "match_items i (One k # is) s = Some n \<Longrightarrow> 0 < n"
  by (cases s) (auto split: if_splits)

lemma match_alts_pos:
  "list_all (\<lambda>a. \<exists>k is. a = One k # is) as \<Longrightarrow> match_alts i as s \<noteq> Some 0"
proof (induction as)
  case Nil
  show ?case by simp
next
  case (Cons a as)
  then obtain k "is" where a: "a = One k # is" by auto
  from Cons have "match_alts i as s \<noteq> Some 0" by simp
  then show ?case
    using match_items_One_pos[of i k "is" s]
    by (cases "match_items i (One k # is) s") (auto simp: a)
qed

lemma placeholder_pos: "match_at placeholder_pattern t \<noteq> Some 0"
  unfolding match_at_def by (rule match_alts_pos) (simp add: placeholder_pattern_def lit_def)

lemma process_env_pos: "match_at process_env_pattern t \<noteq> Some 0"
  unfolding match_at_def by (rule match_alts_pos) (simp add: process_env_pattern_def lit_def)

lemma os_environ_pos: "match_at os_environ_pattern t \<noteq> Some 0"
  unfolding match_at_def by (rule match_alts_pos) (simp add: os_environ_pattern_def lit_def)

lemma os_getenv_pos: "match_at os_getenv_pattern t \<noteq> Some 0"
  unfolding match_at_def by (rule match_alts_pos) (simp add: os_getenv_pattern_def lit_def)

lemma prefix_before: "x \<notin> set W \<Longrightarrow> prefix W (A @ x # B) \<Longrightarrow> prefix W A"
  by (auto simp: prefix_append prefix_Cons)

lemma sublist_around: "x \<notin> set W \<Longrightarrow> sublist W (A @ x # B) \<Longrightarrow> sublist W A \<or> sublist W B"
proof (induction A)
  case Nil
  then show ?case by (auto simp: sublist_Cons_right prefix_Cons)
next
  case (Cons a A)
  from Cons.prems(2) have "prefix W ((a # A) @ x # B) \<or> sublist W (A @ x # B)"
    by (simp add: sublist_Cons_right)
  then show ?case
  proof
    assume "prefix W ((a # A) @ x # B)"
    with Cons.prems(1) have "prefix W (a # A)" by (rule prefix_before)
    then show ?thesis by blast
  next
    assume "sublist W (A @ x # B)"
    with Cons show ?thesis by (auto simp: sublist_Cons_right)
  qed
qed

lemma sublist_quoted:
  assumes "dq \<notin> set W" and "sublist W (quoted C @ rest)"
  shows "sublist W C \<or> sublist W rest"
proof -
  from assms(2) have "sublist W ([] @ dq # (C @ dq # rest))" by (simp add: quoted_def)
  from sublist_around[OF assms(1) this] have "W = [] \<or> sublist W (C @ dq # rest)" by auto
  then show ?thesis
  proof
    assume "W = []" then show ?thesis by simp
  next
    assume "sublist W (C @ dq # rest)"
    from sublist_around[OF assms(1) this] show ?thesis .
  qed
qed

text \<open>What a pass does, for a replacement text without a dollar sign.\<close>

lemma replace_from_plain:
  assumes "CHR ''$'' \<notin> set repl" and "\<And>t. match_at r t \<noteq> Some 0"
  shows "replace_from r repl pre [] = []"
    and "match_at r (c # s) = None \<Longrightarrow>
           replace_from r repl pre (c # s) = c # replace_from r repl (pre @ [c]) s"
    and "match_at r (c # s) = Some (Suc n) \<Longrightarrow>
           replace_from r repl pre (c # s)
             = repl @ replace_from r repl (pre @ c # take n s) (drop n s)"
proof -
  have "match_at r [] = None"
    using assms(2)[of "[]"] match_at_le[of r "[]"] by (cases "match_at r []") auto
  then show "replace_from r repl pre [] = []" by simp
qed (simp_all add: expand_plain[OF assms(1)])

lemma replace_prefix_back:
  assumes plain: "CHR ''$'' \<notin> set C" and pos: "\<And>t. match_at r t \<noteq> Some 0"
  shows "dq \<notin> set W \<Longrightarrow> prefix W (replace_from r (quoted C) pre s) \<Longrightarrow> prefix W s"
proof (induction s arbitrary: W pre rule: length_induct)
  case (1 s)
  have p: "CHR ''$'' \<notin> set (quoted C)" using plain by (simp add: quoted_def)
  note rp = replace_from_plain[OF p pos]
  show ?case
  proof (cases s)
    case Nil
    with "1.prems" show ?thesis by (simp add: rp(1) del: replace_from.simps)
  next
    case (Cons c s')
    show ?thesis
    proof (cases "match_at r (c # s')")
      case None
      show ?thesis
      proof (cases W)
        case Nil
        then show ?thesis by simp
      next
        case (Cons x W')
        from "1.prems"(2) have "x = c" and "prefix W' (replace_from r (quoted C) (pre @ [c]) s')"
          by (simp_all add: \<open>s = c # s'\<close> rp(2)[OF None] Cons del: replace_from.simps)
        moreover have "dq \<notin> set W'" using "1.prems"(1) Cons by simp
        moreover have "length s' < length s" by (simp add: \<open>s = c # s'\<close>)
        ultimately have "prefix W' s'" using "1.IH" by blast
        with \<open>x = c\<close> show ?thesis by (simp add: \<open>s = c # s'\<close> Cons)
      qed
    next
      case (Some n)
      with pos[of "c # s'"] obtain m where n: "n = Suc m" by (cases n) auto
      from "1.prems"(2) have "prefix W (dq # C @ dq # replace_from r (quoted C) (pre @ c # take m s') (drop m s'))"
        using rp(3)[of c s' m] Some n by (simp add: \<open>s = c # s'\<close> quoted_def del: replace_from.simps)
      with "1.prems"(1) have "W = []" by (cases W) auto
      then show ?thesis by simp
    qed
  qed
qed

text \<open>A pass brings in no occurrence of a word that is neither in the text nor in the credential.\<close>

lemma replace_brings_none:
  assumes plain: "CHR ''$'' \<notin> set C" and pos: "\<And>t. match_at r t \<noteq> Some 0"
    and W: "dq \<notin> set W" "\<not> sublist W C"
  shows "\<not> sublist W s \<Longrightarrow> \<not> sublist W (replace_from r (quoted C) pre s)"
proof (induction s arbitrary: pre rule: length_induct)
  case (1 s)
  have p: "CHR ''$'' \<notin> set (quoted C)" using plain by (simp add: quoted_def)
  note rp = replace_from_plain[OF p pos]
  show ?case
  proof (cases s)
    case Nil
    with "1.prems" show ?thesis by (simp add: rp(1) del: replace_from.simps)
  next
    case (Cons c s')
    from "1.prems" have ns': "\<not> sublist W s'" and np: "\<not> prefix W (c # s')"
      by (simp_all add: Cons sublist_Cons_right)
    show ?thesis
    proof (cases "match_at r (c # s')")
      case None
      have "\<not> sublist W (replace_from r (quoted C) (pre @ [c]) s')"
        using "1.IH" ns' by (simp add: Cons)
      moreover have "\<not> prefix W (replace_from r (quoted C) pre (c # s'))"
        using replace_prefix_back[OF plain pos W(1)] np by blast
      ultimately show ?thesis
        by (simp add: Cons rp(2)[OF None] sublist_Cons_right del: replace_from.simps)
    next
      case (Some n)
      with pos[of "c # s'"] obtain m where n: "n = Suc m" by (cases n) auto
      have "\<not> sublist W (drop m s')"
        using ns' sublist_drop sublist_order.order.trans by blast
      moreover have "length (drop m s') < length s" by (simp add: Cons)
      ultimately have "\<not> sublist W (replace_from r (quoted C) (pre @ c # take m s') (drop m s'))"
        using "1.IH" by blast
      with W sublist_quoted[of W C] show ?thesis
        using rp(3)[of c s' m] Some n by (auto simp: Cons simp del: replace_from.simps)
    qed
  qed
qed

text \<open>A pass leaves no occurrence of a word that its pattern matches.\<close>

lemma replace_leaves_none:
  assumes plain: "CHR ''$'' \<notin> set C" and pos: "\<And>t. match_at r t \<noteq> Some 0"
    and W: "dq \<notin> set W" "\<not> sublist W C"
    and m: "\<And>t. prefix W t \<Longrightarrow> match_at r t \<noteq> None"
  shows "\<not> sublist W (replace_from r (quoted C) pre s)"
proof (induction s arbitrary: pre rule: length_induct)
  case (1 s)
  have p: "CHR ''$'' \<notin> set (quoted C)" using plain by (simp add: quoted_def)
  note rp = replace_from_plain[OF p pos]
  have ne: "W \<noteq> []" using m[of "[]"] match_at_le[of r "[]"] pos[of "[]"]
    by (cases "match_at r []") auto
  show ?case
  proof (cases s)
    case Nil
    with ne show ?thesis by (simp add: rp(1) del: replace_from.simps)
  next
    case (Cons c s')
    show ?thesis
    proof (cases "match_at r (c # s')")
      case None
      have "\<not> sublist W (replace_from r (quoted C) (pre @ [c]) s')"
        using "1.IH" by (simp add: Cons)
      moreover have "\<not> prefix W (c # s')" using m[of "c # s'"] None by blast
      then have "\<not> prefix W (replace_from r (quoted C) pre (c # s'))"
        using replace_prefix_back[OF plain pos W(1)] by blast
      ultimately show ?thesis
        by (simp add: Cons rp(2)[OF None] sublist_Cons_right del: replace_from.simps)
    next
      case (Some n)
      with pos[of "c # s'"] obtain k where n: "n = Suc k" by (cases n) auto
      have "length (drop k s') < length s" by (simp add: Cons)
      then have "\<not> sublist W (replace_from r (quoted C) (pre @ c # take k s') (drop k s'))"
        using "1.IH" by blast
      with W sublist_quoted[of W C] show ?thesis
        using rp(3)[of c s' k] Some n by (auto simp: Cons simp del: replace_from.simps)
    qed
  qed
qed

lemma sublist_TOKEN:
  "sublist ''TOKEN'' ''YOUR_BOT_TOKEN''"
  "sublist ''TOKEN'' ''process.env.DISCORD_TOKEN''"
  "sublist ''TOKEN'' ''process.env.BOT_TOKEN''"
  "sublist ''TOKEN'' ''process.env.TOKEN''"
  by (simp_all add: str_includes_sublist[symmetric])

lemma substitute_leaves_none:
  assumes plain: "CHR ''$'' \<notin> set C" and C: "\<not> sublist W C" and W: "dq \<notin> set W"
    and m: "(\<forall>t. prefix W t \<longrightarrow> match_at placeholder_pattern t \<noteq> None)
            \<or> (\<forall>t. prefix W t \<longrightarrow> match_at process_env_pattern t \<noteq> None)"
  shows "\<not> sublist W (substitute C text)"
proof -
  let ?q = "quoted C"
  let ?p1 = "replace_all placeholder_pattern ?q text"
  let ?p2 = "replace_all process_env_pattern ?q ?p1"
  let ?p3 = "replace_all os_environ_pattern ?q ?p2"
  from m have "\<not> sublist W ?p2"
  proof
    assume "\<forall>t. prefix W t \<longrightarrow> match_at placeholder_pattern t \<noteq> None"
    then have "\<not> sublist W ?p1"
      unfolding replace_all_def
      using replace_leaves_none[OF plain placeholder_pos W C] by blast
    then show ?thesis
      unfolding replace_all_def
      using replace_brings_none[OF plain process_env_pos W C] by blast
  next
    assume "\<forall>t. prefix W t \<longrightarrow> match_at process_env_pattern t \<noteq> None"
    then show ?thesis
      unfolding replace_all_def
      using replace_leaves_none[OF plain process_env_pos W C] by blast
  qed
  then have "\<not> sublist W ?p3"
    unfolding replace_all_def
    using replace_brings_none[OF plain os_environ_pos W C] by blast
  then have "\<not> sublist W (replace_all os_getenv_pattern ?q ?p3)"
    unfolding replace_all_def
    using replace_brings_none[OF plain os_getenv_pos W C] by blast
  then show ?thesis by (simp add: substitute_def)
qed

text \<open>
  For a credential without a dollar sign that does not contain the text \<open>TOKEN\<close>, the
  substituted text has no bare placeholder and no Runtime-B lookup left.
\<close>

lemma credential_without_dollar:
  assumes "CHR ''$'' \<notin> set botToken" and "\<not> str_includes botToken ''TOKEN''"
  shows "\<not> str_includes (substitute botToken text) ''YOUR_BOT_TOKEN''"
    and "\<not> str_includes (substitute botToken text) ''process.env.DISCORD_TOKEN''"
    and "\<not> str_includes (substitute botToken text) ''process.env.BOT_TOKEN''"
    and "\<not> str_includes (substitute botToken text) ''process.env.TOKEN''"
proof -
  have n: "\<not> sublist W botToken" if "sublist ''TOKEN'' W" for W
    using that assms(2) sublist_order.order.trans by (auto simp: str_includes_sublist)
  show "\<not> str_includes (substitute botToken text) ''YOUR_BOT_TOKEN''"
    unfolding str_includes_sublist
    by (rule substitute_leaves_none[OF assms(1) n[OF sublist_TOKEN(1)]])
       (simp_all add: match_at_placeholder startsWith_prefix)
  show "\<not> str_includes (substitute botToken text) ''process.env.DISCORD_TOKEN''"
    unfolding str_includes_sublist
    by (rule substitute_leaves_none[OF assms(1) n[OF sublist_TOKEN(2)]])
       (simp_all add: match_at_process_env startsWith_prefix)
  show "\<not> str_includes (substitute botToken text) ''process.env.BOT_TOKEN''"
    unfolding str_includes_sublist
    by (rule substitute_leaves_none[OF assms(1) n[OF sublist_TOKEN(3)]])
       (simp_all add: match_at_process_env startsWith_prefix)
  show "\<not> str_includes (substitute botToken text) ''process.env.TOKEN''"
    unfolding str_includes_sublist
    by (rule substitute_leaves_none[OF assms(1) n[OF sublist_TOKEN(4)]])
       (simp_all add: match_at_process_env startsWith_prefix)
qed

text \<open>
  Claim C6, on the code. The credential is handed to \<^verbatim>\<open>replace\<close> as the replacement
  string, in which a dollar sign is not literal. For the credential \<open>a$$b\<close> the
  placeholder in the file on disk is replaced by the quoted text \<open>a$b\<close>, which is not
  the double-quoted literal of the credential.
\<close>

theorem dollar_in_credential_is_rewritten:
  "read_file (snd (createBotWorkspace demo_world ''b1'' [login_file] ''a$$b'' (demo_engine [login_file])))
      ''b1'' ''bot.py''
     = Some (''client.run('' @ [dq] @ ''a$b'' @ [dq] @ '')'')
   \<and> quoted ''a$$b'' = [dq] @ ''a$$b'' @ [dq]
   \<and> \<not> str_includes (''client.run('' @ [dq] @ ''a$b'' @ [dq] @ '')'') (quoted ''a$$b'')"
proof -
  have "createBotWorkspace demo_world ''b1'' [login_file] ''a$$b'' (demo_engine [login_file])
          = (Inr ''b1'', write_file ''b1'' ''bot.py'' (substitute ''a$$b'' (content login_file))
                           (mkdir ''b1'' (demo_engine [login_file])))"
    by (simp add: createBotWorkspace_def demo_facts login_file_def write_path_def locate_def
          endsWith_def)
  then show ?thesis
    by (simp add: substitute_dollar read_file_def write_file_def mkdir_def demo_engine_def quoted_def)
qed

end
